theory Spec2Isabelle
  imports Main
begin

section \<open>Data model (models/User.js)\<close>

text \<open>
  A \<open>User\<close> document of the schema in \<open>models/User.js\<close>. An ObjectId is its hex string,
  a \<open>Date\<close> is milliseconds since the epoch, an absent path is \<open>None\<close>, and the schema's
  \<open>Number\<close> paths are integers (the counters of this program stay far below \<open>2^53\<close>, where
  a JavaScript number is exact). The library's bookkeeping paths \<open>createdAt\<close>/\<open>updatedAt\<close>
  are not part of the model.
\<close>

type_synonym oid = string
type_synonym time = int

text \<open>
  \<open>bcryptjs\<close> is a library: a hash is modelled as the pair of the salt and the password it
  was made from, and \<open>compare\<close> succeeds exactly on that password.
\<close>

datatype pwhash = Bcrypt string string

fun bcrypt_hash :: "string \<Rightarrow> string \<Rightarrow> pwhash" where
  "bcrypt_hash pw s = Bcrypt s pw"

fun bcrypt_compare :: "string \<Rightarrow> pwhash \<Rightarrow> bool" where
  "bcrypt_compare pw (Bcrypt s p) = (pw = p)"

record user =
  uid :: oid
  name :: "string option"
  email :: string
  password :: "pwhash option"
  profilePicture :: string
  isVerified :: bool
  googleId :: "string option"
  sawabPoints :: int
  referralCode :: "string option"
  referredBy :: "oid option"
  referralCount :: int
  verificationToken :: "string option"
  verificationTokenExpiry :: "time option"
  resetPasswordToken :: "string option"
  resetPasswordExpiry :: "time option"
  loginAttempts :: int
  accountLocked :: bool
  lastLogin :: "time option"

text \<open>
  The schema declares neither \<open>role\<close> nor \<open>facebookId\<close>: on a document of a strict schema
  both properties are \<open>undefined\<close>.
\<close>

definition role :: "user \<Rightarrow> string option" where
  "role u = None"

definition facebookId :: "user \<Rightarrow> string option" where
  "facebookId u = None"

text \<open>JavaScript's \<open>!x\<close> on an optional string: \<open>undefined\<close> and \<open>''\<close> are falsy.\<close>

definition falsy :: "string option \<Rightarrow> bool" where
  "falsy x = (x = None \<or> x = Some [])"

subsection \<open>The schema's string setters: \<open>trim\<close> and \<open>lowercase\<close>\<close>

definition isSpace :: "char \<Rightarrow> bool" where
  "isSpace c = (c \<in> set [CHR '' '', CHR 0x09, CHR 0x0A, CHR 0x0B, CHR 0x0C, CHR 0x0D])"

definition trim :: "string \<Rightarrow> string" where
  "trim s = rev (dropWhile isSpace (rev (dropWhile isSpace s)))"

definition toLowerChar :: "char \<Rightarrow> char" where
  "toLowerChar c =
     (let n = (of_char c :: nat) in if 65 \<le> n \<and> n \<le> 90 then char_of (n + 32) else c)"

definition toUpperChar :: "char \<Rightarrow> char" where
  "toUpperChar c =
     (let n = (of_char c :: nat) in if 97 \<le> n \<and> n \<le> 122 then char_of (n - 32) else c)"

definition isAlnum :: "char \<Rightarrow> bool" where
  "isAlnum c =
     (let n = (of_char c :: nat) in
        (48 \<le> n \<and> n \<le> 57) \<or> (65 \<le> n \<and> n \<le> 90) \<or> (97 \<le> n \<and> n \<le> 122))"

text \<open>
  The \<open>email\<close> path has \<open>trim: true, lowercase: true\<close>; the library applies these setters
  when a document is created and when a query filter on the path is cast.
\<close>

definition castEmail :: "string \<Rightarrow> string" where
  "castEmail e = map toLowerChar (trim e)"

section \<open>The collection and the side channels\<close>

record mail =
  mail_to :: string
  mail_subject :: string
  mail_token :: string

text \<open>
  The state is the \<open>users\<close> collection, in insertion order, and the log of the
  \<open>transporter.sendMail\<close> calls made so far (the token embedded in the link stands for the
  message body). Requests are served one at a time, and a failure of the database
  connection is not modelled.
\<close>

record state =
  users :: "user list"
  mailLog :: "mail list"

datatype ticket = VerifyThrows | NoPayload | Payload string "string option" "string option" string bool

text \<open>
  What a handler reads from outside the collection: the clock, the random generator, the
  identifier the database gives to a new document, whether the mail transport fails, and
  the two token verifiers (\<open>googleClient.verifyIdToken\<close>, \<open>jwt.verify\<close>), which are libraries
  keyed by secrets of the deployment.
\<close>

record env =
  now :: time
  randomHex :: string
  salt :: string
  newId :: oid
  mailFails :: bool
  draws :: "string list"
  googleVerify :: "string \<Rightarrow> ticket"
  jwtVerify :: "string \<Rightarrow> oid option"

definition findOne :: "(user \<Rightarrow> bool) \<Rightarrow> user list \<Rightarrow> user option" where
  "findOne P us = List.find P us"

definition findById :: "oid \<Rightarrow> user list \<Rightarrow> user option" where
  "findById i us = List.find (\<lambda>u. uid u = i) us"

text \<open>\<open>doc.save()\<close> of a loaded document writes it back under its \<open>_id\<close>.\<close>

definition save :: "user \<Rightarrow> user list \<Rightarrow> user list" where
  "save u us = map (\<lambda>x. if uid x = uid u then u else x) us"

text \<open>
  \<open>User.create\<close>: the schema defaults, then validation (\<open>email\<close> required; \<open>password\<close>
  required unless \<open>googleId\<close>; the pre-save hook), then the insert, which the unique indexes
  on \<open>_id\<close> and \<open>email\<close> can reject. \<open>None\<close> is the thrown error.
\<close>

definition newUser :: "oid \<Rightarrow> string \<Rightarrow> user" where
  "newUser i e =
     \<lparr>uid = i, name = None, email = castEmail e, password = None, profilePicture = [],
      isVerified = False, googleId = None, sawabPoints = 0, referralCode = None,
      referredBy = None, referralCount = 0, verificationToken = None,
      verificationTokenExpiry = None, resetPasswordToken = None, resetPasswordExpiry = None,
      loginAttempts = 0, accountLocked = False, lastLogin = None\<rparr>"

definition create :: "user \<Rightarrow> user list \<Rightarrow> user list option" where
  "create u us =
     (if email u = [] then None
      else if password u = None \<and> falsy (googleId u) then None
      else if (\<exists>x \<in> set us. uid x = uid u \<or> email x = email u) then None
      else Some (us @ [u]))"

section \<open>Responses\<close>

text \<open>
  A response is the HTTP status, the \<open>message\<close> of the JSON body and the rest of the body:
  \<open>Session i e n p v\<close> is a bearer token minted by \<open>generateToken\<close> for the identifier \<open>i\<close>
  together with the profile fields returned beside it, \<open>Doc\<close> the serialised document of
  the given user, \<open>ReferralInfo\<close> and \<open>Points\<close> the referral bodies.
\<close>

datatype payload =
    NoData
  | Session oid string "string option" "string option" bool
  | Doc "oid option"
  | ReferralInfo "string option" int int
  | Points int

datatype response = Response (status: nat) (message: "string option") (payload: payload)

definition msg :: "nat \<Rightarrow> string \<Rightarrow> response" where
  "msg c m = Response c (Some m) NoData"

definition lockedMessage :: string where
  "lockedMessage = ''Your account has been locked due to too many failed login attempts. Please reset your password or contact support.''"

definition verifyFirstMessage :: string where
  "verifyFirstMessage = ''Please verify your email before logging in. A new verification email has been sent.''"

definition registeredMessage :: string where
  "registeredMessage = ''User registered successfully. Please check your email to verify your account.''"

section \<open>controllers/authController.js\<close>

text \<open>
  Each handler takes what it reads of the request and the state, and returns the response
  with the new state. A body field that the handler tests with \<open>!x\<close> is optional; the
  others are strings.
\<close>

definition register :: "env \<Rightarrow> string option \<Rightarrow> string option \<Rightarrow> string option \<Rightarrow> state \<Rightarrow> response \<times> state" where
  "register ev nm em pw st =
     (case (em, pw) of
        (Some e, Some p) \<Rightarrow>
          if e = [] \<or> p = [] then (msg 400 ''Please provide email and password'', st)
          else (case findOne (\<lambda>u. email u = castEmail e) (users st) of
                  Some userExists \<Rightarrow> (msg 400 ''User already exists'', st)
                | None \<Rightarrow>
                    let verificationToken' = randomHex ev;
                        verificationTokenExpiry' = now ev + 24 * 60 * 60 * 1000;
                        hashedPassword = bcrypt_hash p (salt ev)
                    in (case create ((newUser (newId ev) e)
                                       \<lparr>name := map_option trim nm,
                                        password := Some hashedPassword,
                                        verificationToken := Some verificationToken',
                                        verificationTokenExpiry := Some verificationTokenExpiry',
                                        isVerified := False\<rparr>) (users st) of
                          None \<Rightarrow> (msg 500 ''Server error'', st)
                        | Some us' \<Rightarrow>
                            (msg 201 registeredMessage,
                             st\<lparr>users := us',
                                mailLog := mailLog st @
                                  [\<lparr>mail_to = e, mail_subject = ''Verify your email address'',
                                    mail_token = verificationToken'\<rparr>]\<rparr>)))
      | _ \<Rightarrow> (msg 400 ''Please provide email and password'', st))"

definition verifyEmail :: "string \<Rightarrow> state \<Rightarrow> response \<times> state" where
  "verifyEmail token st =
     (case findOne (\<lambda>u. verificationToken u = Some token) (users st) of
        None \<Rightarrow> (msg 400 ''Invalid verification token'', st)
      | Some user \<Rightarrow>
          let user' = user\<lparr>isVerified := True, verificationToken := None\<rparr>
          in (Response 200 (Some ''Email verified successfully'')
                (Session (uid user') (email user') (Some (case name user' of None \<Rightarrow> [] | Some n \<Rightarrow> n))
                   None (isVerified user')),
              st\<lparr>users := save user' (users st)\<rparr>))"

definition loginUser :: "env \<Rightarrow> string \<Rightarrow> string \<Rightarrow> state \<Rightarrow> response \<times> state" where
  "loginUser ev em pw st =
     (case findOne (\<lambda>u. email u = castEmail em) (users st) of
        None \<Rightarrow> (msg 400 ''Invalid credentials'', st)
      | Some user \<Rightarrow>
          if accountLocked user then (msg 401 lockedMessage, st)
          else if \<not> isVerified user \<and> falsy (googleId user) \<and> falsy (facebookId user) then
            let verificationToken' = randomHex ev;
                verificationTokenExpiry' = now ev + 24 * 60 * 60 * 1000;
                user' = user\<lparr>verificationToken := Some verificationToken',
                             verificationTokenExpiry := Some verificationTokenExpiry'\<rparr>
            in (msg 401 verifyFirstMessage,
                st\<lparr>users := save user' (users st),
                   mailLog := mailLog st @
                     [\<lparr>mail_to = em, mail_subject = ''Verify your email address'',
                       mail_token = verificationToken'\<rparr>]\<rparr>)
          else (case password user of
                  None \<Rightarrow> (msg 500 ''Server error'', st)
                | Some h \<Rightarrow>
                    if \<not> bcrypt_compare pw h then
                      let n = loginAttempts user + 1;
                          user' = user\<lparr>loginAttempts := n,
                                       accountLocked := (if n \<ge> 5 then True else accountLocked user)\<rparr>
                      in (msg 400 ''Invalid credentials'', st\<lparr>users := save user' (users st)\<rparr>)
                    else
                      let user' = user\<lparr>loginAttempts := 0, lastLogin := Some (now ev)\<rparr>
                      in (Response 200 None
                            (Session (uid user') (email user') (name user')
                               (Some (profilePicture user')) (isVerified user')),
                          st\<lparr>users := save user' (users st)\<rparr>)))"

definition googleLogin :: "env \<Rightarrow> string option \<Rightarrow> state \<Rightarrow> response \<times> state" where
  "googleLogin ev idToken st =
     (if falsy idToken then (msg 400 ''ID Token is required'', st)
      else (case googleVerify ev (case idToken of Some t \<Rightarrow> t | None \<Rightarrow> []) of
              VerifyThrows \<Rightarrow> (msg 401 ''Failed to verify Google token'', st)
            | NoPayload \<Rightarrow> (msg 400 ''Invalid Google token'', st)
            | Payload gemail gname picture sub email_verified \<Rightarrow>
                (case findOne (\<lambda>u. email u = castEmail gemail) (users st) of
                   Some user \<Rightarrow>
                     let linked = falsy (googleId user);
                         user1 = (if linked then user\<lparr>googleId := Some sub\<rparr> else user);
                         us1 = (if linked then save user1 (users st) else users st);
                         raised = (\<not> isVerified user1 \<and> email_verified);
                         user2 = (if raised then user1\<lparr>isVerified := True\<rparr> else user1);
                         us2 = (if raised then save user2 us1 else us1)
                     in (Response 200 None
                           (Session (uid user2) (email user2)
                              (Some (case name user2 of None \<Rightarrow> [] | Some n \<Rightarrow> n))
                              (Some (profilePicture user2)) (isVerified user2)),
                         st\<lparr>users := us2\<rparr>)
                 | None \<Rightarrow>
                     let hashedPassword = bcrypt_hash (randomHex ev) (salt ev);
                         user = (newUser (newId ev) gemail)
                                  \<lparr>password := Some hashedPassword,
                                   name := Some (trim (case gname of None \<Rightarrow> [] | Some n \<Rightarrow> n)),
                                   profilePicture := (case picture of None \<Rightarrow> [] | Some p \<Rightarrow> p),
                                   googleId := Some sub,
                                   isVerified := email_verified\<rparr>
                     in (case create user (users st) of
                           None \<Rightarrow> (msg 401 ''Failed to verify Google token'', st)
                         | Some us' \<Rightarrow>
                             (Response 200 None
                                (Session (uid user) (email user)
                                   (Some (case name user of None \<Rightarrow> [] | Some n \<Rightarrow> n))
                                   (Some (profilePicture user)) (isVerified user)),
                              st\<lparr>users := us'\<rparr>)))))"

definition getCurrentUser :: "user \<Rightarrow> state \<Rightarrow> response \<times> state" where
  "getCurrentUser reqUser st =
     (Response 200 None (Doc (map_option uid (findById (uid reqUser) (users st)))), st)"

definition forgotPassword :: "env \<Rightarrow> string \<Rightarrow> state \<Rightarrow> response \<times> state" where
  "forgotPassword ev em st =
     (case findOne (\<lambda>u. email u = castEmail em) (users st) of
        None \<Rightarrow> (msg 404 ''User not found'', st)
      | Some user \<Rightarrow>
          let resetToken = randomHex ev;
              resetTokenExpiry = now ev + 60 * 60 * 1000;
              user' = user\<lparr>resetPasswordToken := Some resetToken,
                           resetPasswordExpiry := Some resetTokenExpiry\<rparr>;
              st' = st\<lparr>users := save user' (users st),
                       mailLog := mailLog st @
                         [\<lparr>mail_to = em, mail_subject = ''Password Reset Request'',
                           mail_token = resetToken\<rparr>]\<rparr>
          in if mailFails ev then (msg 500 ''Server error'', st')
             else (msg 200 ''Password reset email sent'', st'))"

definition resetPassword :: "env \<Rightarrow> string \<Rightarrow> string \<Rightarrow> state \<Rightarrow> response \<times> state" where
  "resetPassword ev token pw st =
     (case findOne (\<lambda>u. resetPasswordToken u = Some token \<and>
                         (case resetPasswordExpiry u of None \<Rightarrow> False | Some t \<Rightarrow> t > now ev))
             (users st) of
        None \<Rightarrow> (msg 400 ''Invalid or expired reset token'', st)
      | Some user \<Rightarrow>
          let hashedPassword = bcrypt_hash pw (salt ev);
              user' = user\<lparr>password := Some hashedPassword,
                           resetPasswordToken := None,
                           resetPasswordExpiry := None\<rparr>
          in (msg 200 ''Password reset successful'', st\<lparr>users := save user' (users st)\<rparr>))"

definition resendVerificationEmail :: "env \<Rightarrow> string option \<Rightarrow> state \<Rightarrow> response \<times> state" where
  "resendVerificationEmail ev em st =
     (if falsy em then (msg 400 ''Email is required'', st)
      else let e = (case em of Some x \<Rightarrow> x | None \<Rightarrow> []) in
        (case findOne (\<lambda>u. email u = castEmail e) (users st) of
           None \<Rightarrow> (msg 404 ''User not found'', st)
         | Some user \<Rightarrow>
             if isVerified user then (msg 400 ''Email is already verified'', st)
             else
               let verificationToken' = randomHex ev;
                   user' = user\<lparr>verificationToken := Some verificationToken'\<rparr>;
                   st' = st\<lparr>users := save user' (users st),
                            mailLog := mailLog st @
                              [\<lparr>mail_to = e, mail_subject = ''Verify your email address'',
                                mail_token = verificationToken'\<rparr>]\<rparr>
               in if mailFails ev then (msg 500 ''Failed to send verification email'', st')
                  else (msg 200 ''Verification email sent successfully'', st')))"

section \<open>controllers/referralController.js\<close>

text \<open>
  \<open>generateReferralCode\<close> draws random bytes and calls itself again while the candidate is
  taken. The successive draws (\<open>crypto.randomBytes(3).toString('hex')\<close>) are the list given;
  \<open>None\<close> means that the recursion has not ended within them.
\<close>

fun generateReferralCode :: "oid \<Rightarrow> user list \<Rightarrow> string list \<Rightarrow> string option" where
  "generateReferralCode userId us [] = None"
| "generateReferralCode userId us (r # rs) =
     (let baseCode = take 6 userId @ r;
          code = take 8 (map toUpperChar (filter isAlnum baseCode))
      in (case findOne (\<lambda>u. referralCode u = Some code) us of
            Some existingUser \<Rightarrow> generateReferralCode userId us rs
          | None \<Rightarrow> Some code))"

text \<open>
  The handlers behind the middleware read \<open>req.user.id\<close>. A handler that dereferences the
  \<open>null\<close> of a failed \<open>findById\<close> throws, which its \<open>catch\<close> turns into the 500 response.
\<close>

definition getReferralInfo :: "env \<Rightarrow> user \<Rightarrow> state \<Rightarrow> (response \<times> state) option" where
  "getReferralInfo ev reqUser st =
     (case findById (uid reqUser) (users st) of
        None \<Rightarrow> Some (msg 500 ''Server error'', st)
      | Some user \<Rightarrow>
          if falsy (referralCode user) then
            (case generateReferralCode (uid user) (users st) (draws ev) of
               None \<Rightarrow> None
             | Some code \<Rightarrow>
                 let user' = user\<lparr>referralCode := Some code\<rparr>
                 in Some (Response 200 None
                            (ReferralInfo (referralCode user') (referralCount user') (sawabPoints user')),
                          st\<lparr>users := save user' (users st)\<rparr>))
          else Some (Response 200 None
                       (ReferralInfo (referralCode user) (referralCount user) (sawabPoints user)),
                     st))"

definition applyReferralCode :: "user \<Rightarrow> string \<Rightarrow> state \<Rightarrow> response \<times> state" where
  "applyReferralCode reqUser code st =
     (case findOne (\<lambda>u. referralCode u = Some code) (users st) of
        None \<Rightarrow> (msg 404 ''Invalid referral code'', st)
      | Some referrer \<Rightarrow>
          if uid referrer = uid reqUser then (msg 400 ''You cannot refer yourself'', st)
          else (case findById (uid reqUser) (users st) of
                  None \<Rightarrow> (msg 500 ''Server error'', st)
                | Some currentUser \<Rightarrow>
                    if referredBy currentUser \<noteq> None then
                      (msg 400 ''You have already used a referral code'', st)
                    else
                      let referrer' = referrer\<lparr>sawabPoints := sawabPoints referrer + 5,
                                               referralCount := referralCount referrer + 1\<rparr>;
                          us1 = save referrer' (users st);
                          currentUser' = currentUser\<lparr>referredBy := Some (uid referrer),
                                                     sawabPoints := sawabPoints currentUser + 2\<rparr>;
                          us2 = save currentUser' us1
                      in (Response 200 (Some ''Referral code applied successfully'')
                            (Points (sawabPoints currentUser')),
                          st\<lparr>users := us2\<rparr>)))"

definition shareReferralLink :: "user \<Rightarrow> state \<Rightarrow> response \<times> state" where
  "shareReferralLink reqUser st =
     (case findById (uid reqUser) (users st) of
        None \<Rightarrow> (msg 500 ''Server error'', st)
      | Some user \<Rightarrow>
          let user' = user\<lparr>sawabPoints := sawabPoints user + 2\<rparr>
          in (Response 200 (Some ''Points awarded for sharing'') (Points (sawabPoints user')),
              st\<lparr>users := save user' (users st)\<rparr>))"

definition getSawabPoints :: "user \<Rightarrow> state \<Rightarrow> response \<times> state" where
  "getSawabPoints reqUser st =
     (case findById (uid reqUser) (users st) of
        None \<Rightarrow> (msg 500 ''Server error'', st)
      | Some user \<Rightarrow> (Response 200 None (Points (sawabPoints user)), st))"

section \<open>middleware/auth.js\<close>

record headers =
  authorization :: "string option"
  cookieToken :: "string option"

fun splitOn :: "char \<Rightarrow> string \<Rightarrow> string list" where
  "splitOn c [] = [[]]"
| "splitOn c (x # xs) =
     (if x = c then [] # splitOn c xs
      else (case splitOn c xs of [] \<Rightarrow> [[x]] | w # ws \<Rightarrow> (x # w) # ws))"

text \<open>
  The token is the second piece of an \<open>Authorization\<close> header that starts with \<open>Bearer\<close>,
  otherwise the \<open>token\<close> cookie.
\<close>

definition extractToken :: "headers \<Rightarrow> string option" where
  "extractToken h =
     (case authorization h of
        Some a \<Rightarrow>
          if a \<noteq> [] \<and> take 6 a = ''Bearer'' then
            (case splitOn CHR '' '' a of _ # t # _ \<Rightarrow> Some t | _ \<Rightarrow> None)
          else if \<not> falsy (cookieToken h) then cookieToken h else None
      | None \<Rightarrow> if \<not> falsy (cookieToken h) then cookieToken h else None)"

text \<open>
  \<open>protect\<close> either answers itself (\<open>Inl\<close>) or passes the user it loaded, without the
  password, to the next handler (\<open>Inr\<close>). A \<open>jwt.verify\<close> that throws is \<open>None\<close>.
\<close>

definition protect :: "env \<Rightarrow> headers \<Rightarrow> state \<Rightarrow> response + user" where
  "protect ev h st =
     (case extractToken h of
        None \<Rightarrow> Inl (msg 401 ''Not authorized to access this route'')
      | Some token \<Rightarrow>
          if token = [] then Inl (msg 401 ''Not authorized to access this route'')
          else (case jwtVerify ev token of
                  None \<Rightarrow> Inl (msg 401 ''Not authorized to access this route'')
                | Some decoded_id \<Rightarrow>
                    (case findById decoded_id (users st) of
                       None \<Rightarrow> Inl (msg 401 ''User not found'')
                     | Some user \<Rightarrow>
                         if \<not> isVerified user \<and> role user \<noteq> Some ''admin'' then
                           Inl (msg 401 ''Email not verified'')
                         else Inr (user\<lparr>password := None\<rparr>))))"

section \<open>routes/auth.js, routes/referralRoutes.js\<close>

text \<open>A route \<open>router.verb(path, protect, handler)\<close>: the handler runs only if \<open>protect\<close> passes.\<close>

definition guarded ::
  "env \<Rightarrow> headers \<Rightarrow> (user \<Rightarrow> state \<Rightarrow> (response \<times> state) option) \<Rightarrow> state \<Rightarrow> (response \<times> state) option" where
  "guarded ev h handler st =
     (case protect ev h st of Inl r \<Rightarrow> Some (r, st) | Inr reqUser \<Rightarrow> handler reqUser st)"

text \<open>
  The requests of the public interface whose handlers are in the sources. The handler of
  \<open>PUT /auth/profile\<close> (\<open>updateProfile\<close>) is not; that route is \<open>guarded\<close> applied to an
  arbitrary handler.
\<close>

datatype request =
    PostRegister "string option" "string option" "string option"
  | GetVerifyEmail string
  | PostLogin string string
  | PostGoogle "string option"
  | PostForgotPassword string
  | PostResetPassword string string
  | PostResendVerification "string option"
  | GetMe headers
  | GetReferral headers
  | PostReferralApply headers string
  | PostReferralShare headers
  | GetReferralPoints headers

fun handle :: "env \<Rightarrow> request \<Rightarrow> state \<Rightarrow> (response \<times> state) option" where
  "handle ev (PostRegister nm em pw) st = Some (register ev nm em pw st)"
| "handle ev (GetVerifyEmail token) st = Some (verifyEmail token st)"
| "handle ev (PostLogin em pw) st = Some (loginUser ev em pw st)"
| "handle ev (PostGoogle idToken) st = Some (googleLogin ev idToken st)"
| "handle ev (PostForgotPassword em) st = Some (forgotPassword ev em st)"
| "handle ev (PostResetPassword token pw) st = Some (resetPassword ev token pw st)"
| "handle ev (PostResendVerification em) st = Some (resendVerificationEmail ev em st)"
| "handle ev (GetMe h) st = guarded ev h (\<lambda>u s. Some (getCurrentUser u s)) st"
| "handle ev (GetReferral h) st = guarded ev h (getReferralInfo ev) st"
| "handle ev (PostReferralApply h code) st = guarded ev h (\<lambda>u s. Some (applyReferralCode u code s)) st"
| "handle ev (PostReferralShare h) st = guarded ev h (\<lambda>u s. Some (shareReferralLink u s)) st"
| "handle ev (GetReferralPoints h) st = guarded ev h (\<lambda>u s. Some (getSawabPoints u s)) st"

text \<open>The state after a request; a handler that never answers has written nothing.\<close>

definition step :: "env \<Rightarrow> request \<Rightarrow> state \<Rightarrow> state" where
  "step ev rq st = (case handle ev rq st of None \<Rightarrow> st | Some (r, st') \<Rightarrow> st')"

fun run :: "(env \<times> request) list \<Rightarrow> state \<Rightarrow> state" where
  "run [] st = st"
| "run ((ev, rq) # rest) st = run rest (step ev rq st)"

section \<open>Relations between versions of the collection\<close>

text \<open>
  \<open>keeps u w\<close>: \<open>w\<close> is a later version of the document \<open>u\<close>, with the same identifier and
  email, still locked if \<open>u\<close> was locked and still verified if \<open>u\<close> was verified.
\<close>

definition keeps :: "user \<Rightarrow> user \<Rightarrow> bool" where
  "keeps u w = (uid w = uid u \<and> email w = email u \<and> (accountLocked u \<longrightarrow> accountLocked w)
      \<and> (isVerified u \<longrightarrow> isVerified w))"

definition attemptsOk :: "user \<Rightarrow> bool" where
  "attemptsOk u = (0 \<le> loginAttempts u \<and> loginAttempts u \<le> 5 \<and> (loginAttempts u = 5 \<longrightarrow> accountLocked u))"

definition later :: "user \<Rightarrow> user \<Rightarrow> bool" where
  "later u w = (keeps u w \<and> (attemptsOk u \<longrightarrow> attemptsOk w))"

definition same :: "user \<Rightarrow> user \<Rightarrow> bool" where
  "same u w = (keeps u w \<and> loginAttempts w = loginAttempts u)"

definition evolves :: "(user \<Rightarrow> user \<Rightarrow> bool) \<Rightarrow> user list \<Rightarrow> user list \<Rightarrow> bool" where
  "evolves R us us' = (length us \<le> length us' \<and> (\<forall>i < length us. R (us ! i) (us' ! i)))"

text \<open>
  \<open>upd R us us'\<close>: the collection \<open>us'\<close> comes from \<open>us\<close> by saving documents of the
  collection changed within \<open>R\<close> and by creating documents with no failed attempt.
\<close>

inductive upd :: "(user \<Rightarrow> user \<Rightarrow> bool) \<Rightarrow> user list \<Rightarrow> user list \<Rightarrow> bool"
  for R :: "user \<Rightarrow> user \<Rightarrow> bool" where
  upd_refl: "upd R us us"
| upd_save: "upd R us us1 \<Longrightarrow> u \<in> set us1 \<Longrightarrow> R u u' \<Longrightarrow> upd R us (save u' us1)"
| upd_create: "upd R us us1 \<Longrightarrow> create u us1 = Some us2 \<Longrightarrow> loginAttempts u = 0 \<Longrightarrow> upd R us us2"

section \<open>A sample collection\<close>

text \<open>
  Four accounts used to evaluate the handlers: \<open>alice\<close> is verified and unlocked, \<open>bob\<close> has
  registered and not yet verified, \<open>carol\<close> is locked after five failed attempts, \<open>dave\<close> holds
  a referral code and a pending password reset.
\<close>

definition alice :: user where
  "alice = (newUser ''65f0a1b2c3d4e5f601234561'' ''Alice@Example.com '')
             \<lparr>name := Some ''Alice'', password := Some (bcrypt_hash ''correct horse'' ''salt1''),
              isVerified := True\<rparr>"

definition bob :: user where
  "bob = (newUser ''65f0a1b2c3d4e5f601234562'' ''bob@example.com'')
           \<lparr>password := Some (bcrypt_hash ''hunter2'' ''salt2''),
            verificationToken := Some ''aa11'', verificationTokenExpiry := Some 1700000000000\<rparr>"

definition carol :: user where
  "carol = (newUser ''65f0a1b2c3d4e5f601234563'' ''carol@example.com'')
             \<lparr>password := Some (bcrypt_hash ''tr0ub4dor'' ''salt3''), isVerified := True,
              loginAttempts := 5, accountLocked := True\<rparr>"

definition dave :: user where
  "dave = (newUser ''65f0a1b2c3d4e5f601234564'' ''dave@example.com'')
            \<lparr>password := Some (bcrypt_hash ''p4ss'' ''salt4''), isVerified := True,
             referralCode := Some ''65F0A1C4'', sawabPoints := 7, referralCount := 1,
             resetPasswordToken := Some ''bb22'', resetPasswordExpiry := Some 1700000600000,
             loginAttempts := 3\<rparr>"

definition db :: state where
  "db = \<lparr>users = [alice, bob, carol, dave], mailLog = []\<rparr>"

definition env0 :: env where
  "env0 = \<lparr>now = 1700000000000, randomHex = ''9f8e7d'', salt = ''salt9'',
           newId = ''65f0a1b2c3d4e5f6012345ff'', mailFails = False, draws = [''a1b2c3''],
           googleVerify = (\<lambda>t. if t = ''google-token-bob''
                                 then Payload ''bob@example.com'' (Some ''Bob'') None ''g-117'' True
                                 else VerifyThrows),
           jwtVerify = (\<lambda>t. if t = ''jwt-bob'' then Some ''65f0a1b2c3d4e5f601234562''
                              else if t = ''jwt-alice'' then Some ''65f0a1b2c3d4e5f601234561''
                              else None)\<rparr>"

definition bearerBob :: headers where
  "bearerBob = \<lparr>authorization = Some ''Bearer jwt-bob'', cookieToken = None\<rparr>"

section \<open>Lookups and saves\<close>

lemma find_map_pres:
  "(\<forall>x \<in> set xs. P (f x) = P x) \<Longrightarrow> List.find P (map f xs) = map_option f (List.find P xs)"
  by (induction xs) auto

lemma find_mem: "List.find P us = Some u \<Longrightarrow> u \<in> set us \<and> P u"
  by (induction us) (auto split: if_splits)

lemma findOne_mem: "findOne P us = Some u \<Longrightarrow> u \<in> set us \<and> P u"
  unfolding findOne_def by (rule find_mem)

lemma findById_mem: "findById i us = Some u \<Longrightarrow> u \<in> set us \<and> uid u = i"
  unfolding findById_def by (rule find_mem)

lemma uid_unique:
  "distinct (map uid us) \<Longrightarrow> x \<in> set us \<Longrightarrow> y \<in> set us \<Longrightarrow> uid x = uid y \<Longrightarrow> x = y"
  by (meson distinct_map inj_on_def)

lemma find_save_same:
  "List.find P us = Some u \<Longrightarrow> uid u' = uid u \<Longrightarrow> P u' \<Longrightarrow> List.find P (save u' us) = Some u'"
  by (induction us) (auto simp: save_def split: if_splits)

lemma map_uid_save: "map uid (save u' us) = map uid us"
  by (induction us) (auto simp: save_def)

lemma mem_save: "x \<in> set us \<Longrightarrow> uid x \<noteq> uid u' \<Longrightarrow> x \<in> set (save u' us)"
  by (induction us) (auto simp: save_def)

lemma mem_save_same: "x \<in> set us \<Longrightarrow> uid x = uid u' \<Longrightarrow> u' \<in> set (save u' us)"
  by (induction us) (auto simp: save_def)

lemma create_Some: "create u us = Some us2 \<Longrightarrow> us2 = us @ [u] \<and> (\<forall>x \<in> set us. uid x \<noteq> uid u)"
  by (auto simp: create_def split: if_splits)

section \<open>What every request preserves\<close>

lemma keeps_refl: "keeps u u" by (simp add: keeps_def)
lemma keeps_trans: "keeps a b \<Longrightarrow> keeps b c \<Longrightarrow> keeps a c" by (simp add: keeps_def)
lemma same_refl: "same u u" by (simp add: same_def keeps_def)
lemma same_trans: "same a b \<Longrightarrow> same b c \<Longrightarrow> same a c" by (simp add: same_def keeps_def)
lemma same_later: "same a b \<Longrightarrow> later a b"
  by (auto simp: same_def later_def keeps_def attemptsOk_def)

lemma evolves_refl: "(\<And>u. R u u) \<Longrightarrow> evolves R us us" by (simp add: evolves_def)

lemma evolves_trans:
  assumes t: "\<And>a b c. R a b \<Longrightarrow> R b c \<Longrightarrow> R a c" and ab: "evolves R a b" and bc: "evolves R b c"
  shows "evolves R a c"
  unfolding evolves_def
proof (intro conjI allI impI)
  show "length a \<le> length c" using ab bc by (simp add: evolves_def)
next
  fix i assume i: "i < length a"
  then have "R (a ! i) (b ! i)" using ab by (simp add: evolves_def)
  moreover have "R (b ! i) (c ! i)" using i ab bc by (simp add: evolves_def)
  ultimately show "R (a ! i) (c ! i)" by (rule t)
qed

lemma evolves_save:
  assumes r: "\<And>u. R u u" and d: "distinct (map uid us)" and m: "u \<in> set us"
    and k: "R u u'" and i: "uid u' = uid u"
  shows "evolves R us (save u' us)"
  unfolding evolves_def
proof (intro conjI allI impI)
  show "length us \<le> length (save u' us)" by (simp add: save_def)
next
  fix j assume j: "j < length us"
  show "R (us ! j) (save u' us ! j)"
  proof (cases "uid (us ! j) = uid u'")
    case True
    have "us ! j = u" using d m j True i uid_unique[of us "us ! j" u] by simp
    then show ?thesis using True j k by (simp add: save_def)
  next
    case False
    then show ?thesis using j r by (simp add: save_def)
  qed
qed

lemma evolves_append: "(\<And>u. R u u) \<Longrightarrow> evolves R us (us @ [u])"
  by (simp add: evolves_def nth_append)

lemma upd_evolves:
  assumes r: "\<And>u. R u u" and t: "\<And>a b c. R a b \<Longrightarrow> R b c \<Longrightarrow> R a c"
    and i: "\<And>a b. R a b \<Longrightarrow> uid b = uid a"
  shows "upd R us us' \<Longrightarrow> distinct (map uid us) \<Longrightarrow> distinct (map uid us') \<and> evolves R us us'"
proof (induction rule: upd.induct)
  case (upd_refl us)
  then show ?case using r by (simp add: evolves_refl)
next
  case (upd_save us us1 u u')
  then have d1: "distinct (map uid us1)" and e1: "evolves R us us1" by simp_all
  have "evolves R us1 (save u' us1)"
    using r d1 upd_save.hyps(2) upd_save.hyps(3) i[OF upd_save.hyps(3)] by (rule evolves_save)
  with e1 have "evolves R us (save u' us1)" using t evolves_trans by blast
  moreover have "distinct (map uid (save u' us1))" using d1 by (simp add: map_uid_save)
  ultimately show ?case by simp
next
  case (upd_create us us1 u us2)
  then have d1: "distinct (map uid us1)" and e1: "evolves R us us1" by simp_all
  have c: "us2 = us1 @ [u]" "\<forall>x \<in> set us1. uid x \<noteq> uid u"
    using create_Some[OF upd_create.hyps(2)] by simp_all
  have "evolves R us1 us2" using c(1) r by (simp add: evolves_append)
  with e1 have "evolves R us us2" using t evolves_trans by blast
  moreover have "distinct (map uid us2)" using d1 c by auto
  ultimately show ?case by simp
qed

lemma upd_attemptsOk:
  "upd later us us' \<Longrightarrow> \<forall>x \<in> set us. attemptsOk x \<Longrightarrow> \<forall>x \<in> set us'. attemptsOk x"
proof (induction rule: upd.induct)
  case (upd_refl us)
  then show ?case by simp
next
  case (upd_save us us1 u u')
  then have a1: "\<forall>x \<in> set us1. attemptsOk x" by simp
  then have "attemptsOk u'" using upd_save.hyps(2,3) by (simp add: later_def)
  then show ?case using a1 by (auto simp: save_def)
next
  case (upd_create us us1 u us2)
  then have a1: "\<forall>x \<in> set us1. attemptsOk x" by simp
  have c: "us2 = us1 @ [u]" using create_Some[OF upd_create.hyps(2)] by simp
  show ?case
  proof
    fix x assume "x \<in> set us2"
    then have "x \<in> set us1 \<or> x = u" using c by auto
    then show "attemptsOk x"
    proof
      assume "x \<in> set us1" with a1 show ?thesis by blast
    next
      assume "x = u" with upd_create.hyps(3) show ?thesis by (simp add: attemptsOk_def)
    qed
  qed
qed

lemma upd_mono: "upd R us us' \<Longrightarrow> (\<And>a b. R a b \<Longrightarrow> S a b) \<Longrightarrow> upd S us us'"
  by (induction rule: upd.induct) (auto intro: upd.intros)

lemma save_upd: "u \<in> set us \<Longrightarrow> R u u' \<Longrightarrow> upd R us (save u' us)"
  using upd_save[OF upd_refl] by blast

lemma create_upd: "create u us = Some us' \<Longrightarrow> loginAttempts u = 0 \<Longrightarrow> upd R us us'"
  using upd_create[OF upd_refl] by blast

lemma upd_trans: "upd R b c \<Longrightarrow> upd R a b \<Longrightarrow> upd R a c"
  by (induction rule: upd.induct) (auto intro: upd.intros)

lemma register_upd: "upd same (users st) (users (snd (register ev nm em pw st)))"
  by (auto simp: register_def Let_def newUser_def upd_refl split: option.splits intro!: create_upd)

lemma verifyEmail_upd: "upd same (users st) (users (snd (verifyEmail token st)))"
  by (auto simp: verifyEmail_def Let_def upd_refl same_def keeps_def
      split: option.splits dest!: findOne_mem intro!: save_upd)

lemma loginUser_upd: "upd later (users st) (users (snd (loginUser ev em pw st)))"
  by (auto simp: loginUser_def Let_def upd_refl later_def keeps_def attemptsOk_def
      split: option.splits dest!: findOne_mem intro!: save_upd)

lemma forgotPassword_upd: "upd same (users st) (users (snd (forgotPassword ev em st)))"
  by (auto simp: forgotPassword_def Let_def upd_refl same_def keeps_def
      split: option.splits dest!: findOne_mem intro!: save_upd)

lemma resetPassword_upd: "upd same (users st) (users (snd (resetPassword ev token pw st)))"
  by (auto simp: resetPassword_def Let_def upd_refl same_def keeps_def
      split: option.splits dest!: findOne_mem intro!: save_upd)

lemma resendVerificationEmail_upd:
  "upd same (users st) (users (snd (resendVerificationEmail ev em st)))"
  by (auto simp: resendVerificationEmail_def Let_def upd_refl same_def keeps_def
      split: option.splits dest!: findOne_mem intro!: save_upd)

lemma getCurrentUser_upd: "upd same (users st) (users (snd (getCurrentUser u st)))"
  by (simp add: getCurrentUser_def upd_refl)

lemma shareReferralLink_upd: "upd same (users st) (users (snd (shareReferralLink u st)))"
  by (auto simp: shareReferralLink_def Let_def upd_refl same_def keeps_def
      split: option.splits dest!: findById_mem intro!: save_upd)

lemma getSawabPoints_upd: "upd same (users st) (users (snd (getSawabPoints u st)))"
  by (auto simp: getSawabPoints_def upd_refl split: option.splits)

lemma getReferralInfo_upd:
  "getReferralInfo ev u st = Some (r, st') \<Longrightarrow> upd same (users st) (users st')"
  by (auto simp: getReferralInfo_def Let_def upd_refl same_def keeps_def
      split: option.splits if_splits dest!: findById_mem intro!: save_upd)

lemma googleLogin_upd: "upd same (users st) (users (snd (googleLogin ev idToken st)))"
proof (cases "googleVerify ev (case idToken of Some t \<Rightarrow> t | None \<Rightarrow> [])")
  case VerifyThrows
  then show ?thesis by (simp add: googleLogin_def upd_refl)
next
  case NoPayload
  then show ?thesis by (simp add: googleLogin_def upd_refl)
next
  case (Payload gemail gname picture sub email_verified)
  show ?thesis
  proof (cases "findOne (\<lambda>u. email u = castEmail gemail) (users st)")
    case None
    then show ?thesis using Payload
      by (auto simp: googleLogin_def Let_def newUser_def upd_refl split: option.splits intro!: create_upd)
  next
    case (Some user)
    then have m: "user \<in> set (users st)" using findOne_mem by blast
    define user1 where "user1 = (if falsy (googleId user) then user\<lparr>googleId := Some sub\<rparr> else user)"
    define us1 where "us1 = (if falsy (googleId user) then save user1 (users st) else users st)"
    define user2 where "user2 = (if \<not> isVerified user1 \<and> email_verified then user1\<lparr>isVerified := True\<rparr> else user1)"
    define us2 where "us2 = (if \<not> isVerified user1 \<and> email_verified then save user2 us1 else us1)"
    have l1: "same user user1" by (simp add: user1_def same_def keeps_def)
    have l2: "same user1 user2" by (simp add: user2_def same_def keeps_def)
    have u1: "upd same (users st) us1" using m l1 by (simp add: us1_def upd_refl save_upd)
    have m1: "user1 \<in> set us1"
      using m mem_save_same[of user "users st" user1] by (auto simp: us1_def user1_def)
    have "upd same us1 us2" using m1 l2 by (simp add: us2_def upd_refl save_upd)
    then have "upd same (users st) us2" using u1 by (rule upd_trans)
    moreover have "users (snd (googleLogin ev idToken st)) = us2 \<or> falsy idToken"
      using Payload Some by (simp add: googleLogin_def Let_def us2_def user2_def us1_def user1_def)
    moreover have "falsy idToken \<Longrightarrow> users (snd (googleLogin ev idToken st)) = users st"
      by (simp add: googleLogin_def)
    ultimately show ?thesis using upd_refl by metis
  qed
qed

lemma applyReferralCode_upd: "upd same (users st) (users (snd (applyReferralCode reqUser code st)))"
proof (cases "findOne (\<lambda>u. referralCode u = Some code) (users st)")
  case None
  then show ?thesis by (simp add: applyReferralCode_def upd_refl)
next
  case (Some referrer)
  then have mr: "referrer \<in> set (users st)" using findOne_mem by blast
  show ?thesis
  proof (cases "findById (uid reqUser) (users st)")
    case None
    then show ?thesis using Some by (simp add: applyReferralCode_def upd_refl)
  next
    case (Some currentUser)
    then have mc: "currentUser \<in> set (users st)" and ic: "uid currentUser = uid reqUser"
      using findById_mem by blast+
    define referrer' where "referrer' = referrer\<lparr>sawabPoints := sawabPoints referrer + 5,
                                               referralCount := referralCount referrer + 1\<rparr>"
    define currentUser' where "currentUser' = currentUser\<lparr>referredBy := Some (uid referrer),
                                                     sawabPoints := sawabPoints currentUser + 2\<rparr>"
    have l1: "same referrer referrer'" by (simp add: referrer'_def same_def keeps_def)
    have l2: "same currentUser currentUser'" by (simp add: currentUser'_def same_def keeps_def)
    have u1: "upd same (users st) (save referrer' (users st))" using mr l1 by (rule save_upd)
    have "uid referrer \<noteq> uid reqUser \<Longrightarrow> upd same (users st) (save currentUser' (save referrer' (users st)))"
    proof -
      assume "uid referrer \<noteq> uid reqUser"
      then have "currentUser \<in> set (save referrer' (users st))"
        using mc ic mem_save[of currentUser "users st" referrer'] by (simp add: referrer'_def)
      then have "upd same (save referrer' (users st)) (save currentUser' (save referrer' (users st)))"
        using l2 by (rule save_upd)
      then show ?thesis using u1 by (rule upd_trans)
    qed
    then show ?thesis using Some \<open>findOne (\<lambda>u. referralCode u = Some code) (users st) = Some referrer\<close>
      by (simp add: applyReferralCode_def Let_def upd_refl referrer'_def currentUser'_def)
  qed
qed

lemma guarded_cases:
  "guarded ev h f st = Some (r, st') \<Longrightarrow> st' = st \<or> (\<exists>u. f u st = Some (r, st'))"
  by (auto simp: guarded_def split: sum.splits)

lemma handle_upd_same:
  assumes nl: "\<forall>em pw. rq \<noteq> PostLogin em pw"
  shows "handle ev rq st = Some (r, st') \<Longrightarrow> upd same (users st) (users st')"
proof (cases rq)
  case (PostRegister nm em pw)
  assume "handle ev rq st = Some (r, st')"
  then have "st' = snd (register ev nm em pw st)" using PostRegister by simp
  then show ?thesis by (simp add: register_upd)
next
  case (GetVerifyEmail token)
  assume "handle ev rq st = Some (r, st')"
  then have "st' = snd (verifyEmail token st)" using GetVerifyEmail by simp
  then show ?thesis by (simp add: verifyEmail_upd)
next
  case (PostLogin em pw)
  then show ?thesis using nl by simp
next
  case (PostGoogle idToken)
  assume "handle ev rq st = Some (r, st')"
  then have "st' = snd (googleLogin ev idToken st)" using PostGoogle by simp
  then show ?thesis by (simp add: googleLogin_upd)
next
  case (PostForgotPassword em)
  assume "handle ev rq st = Some (r, st')"
  then have "st' = snd (forgotPassword ev em st)" using PostForgotPassword by simp
  then show ?thesis by (simp add: forgotPassword_upd)
next
  case (PostResetPassword token pw)
  assume "handle ev rq st = Some (r, st')"
  then have "st' = snd (resetPassword ev token pw st)" using PostResetPassword by simp
  then show ?thesis by (simp add: resetPassword_upd)
next
  case (PostResendVerification em)
  assume "handle ev rq st = Some (r, st')"
  then have "st' = snd (resendVerificationEmail ev em st)" using PostResendVerification by simp
  then show ?thesis by (simp add: resendVerificationEmail_upd)
next
  case (GetMe h)
  assume "handle ev rq st = Some (r, st')"
  then show ?thesis using GetMe getCurrentUser_upd
    by (auto simp: guarded_def upd_refl getCurrentUser_def split: sum.splits)
next
  case (GetReferral h)
  assume "handle ev rq st = Some (r, st')"
  then show ?thesis using GetReferral
    by (auto simp: guarded_def upd_refl split: sum.splits dest: getReferralInfo_upd)
next
  case (PostReferralApply h code)
  assume "handle ev rq st = Some (r, st')"
  then have "st' = st \<or> (\<exists>u. st' = snd (applyReferralCode u code st))" using PostReferralApply
    by (auto dest!: guarded_cases) (metis snd_conv)
  then show ?thesis using applyReferralCode_upd upd_refl by auto
next
  case (PostReferralShare h)
  assume "handle ev rq st = Some (r, st')"
  then have "st' = st \<or> (\<exists>u. st' = snd (shareReferralLink u st))" using PostReferralShare
    by (auto dest!: guarded_cases) (metis snd_conv)
  then show ?thesis using shareReferralLink_upd upd_refl by auto
next
  case (GetReferralPoints h)
  assume "handle ev rq st = Some (r, st')"
  then have "st' = st \<or> (\<exists>u. st' = snd (getSawabPoints u st))" using GetReferralPoints
    by (auto dest!: guarded_cases) (metis snd_conv)
  then show ?thesis using getSawabPoints_upd upd_refl by auto
qed

lemma handle_upd: "handle ev rq st = Some (r, st') \<Longrightarrow> upd later (users st) (users st')"
proof (cases "\<exists>em pw. rq = PostLogin em pw")
  case True
  then obtain em pw where rq: "rq = PostLogin em pw" by blast
  assume "handle ev rq st = Some (r, st')"
  then have "st' = snd (loginUser ev em pw st)" using rq by simp
  then show ?thesis by (simp add: loginUser_upd)
next
  case False
  assume "handle ev rq st = Some (r, st')"
  then have "upd same (users st) (users st')" using False handle_upd_same by blast
  then show ?thesis using same_later by (rule upd_mono)
qed

lemma step_upd_same:
  "\<forall>em pw. rq \<noteq> PostLogin em pw \<Longrightarrow> upd same (users st) (users (step ev rq st))"
  by (auto simp: step_def upd_refl split: option.splits dest: handle_upd_same)

lemma step_upd: "upd later (users st) (users (step ev rq st))"
  by (auto simp: step_def upd_refl split: option.splits dest: handle_upd)

lemma run_upd: "upd later (users st) (users (run evs st))"
proof (induction evs arbitrary: st)
  case Nil
  then show ?case by (simp add: upd_refl)
next
  case (Cons a evs)
  obtain ev rq where a: "a = (ev, rq)" by (cases a)
  have "upd later (users (step ev rq st)) (users (run evs (step ev rq st)))" by (rule Cons.IH)
  then show ?case using a step_upd upd_trans by auto
qed



lemma later_refl: "later u u" by (simp add: later_def keeps_def)
lemma later_trans: "later a b \<Longrightarrow> later b c \<Longrightarrow> later a c"
  by (auto simp: later_def intro: keeps_trans)

lemma find_evolves:
  assumes e: "evolves R us us'" and k: "\<And>a b. R a b \<Longrightarrow> g b = g a"
    and f: "List.find (\<lambda>x. g x = v) us = Some u"
  shows "\<exists>w. List.find (\<lambda>x. g x = v) us' = Some w \<and> R u w"
proof -
  from f obtain i where i: "i < length us" "g (us ! i) = v" "u = us ! i"
    and least: "\<forall>j < i. g (us ! j) \<noteq> v"
    by (auto simp: find_Some_iff)
  have len: "i < length us'" using e i(1) by (simp add: evolves_def)
  have r: "\<And>j. j \<le> i \<Longrightarrow> R (us ! j) (us' ! j)" using e i(1) by (simp add: evolves_def)
  have hit: "g (us' ! i) = v" using k[OF r[of i]] i(2) by simp
  have before: "\<forall>j < i. g (us' ! j) \<noteq> v"
  proof (intro allI impI)
    fix j assume j: "j < i"
    then have "g (us' ! j) = g (us ! j)" using k[OF r[of j]] by simp
    then show "g (us' ! j) \<noteq> v" using least j by simp
  qed
  have "List.find (\<lambda>x. g x = v) us' = Some (us' ! i)"
    unfolding find_Some_iff using len hit before by blast
  then show ?thesis using r[of i] i(3) by simp
qed

lemma findById_distinct: "distinct (map uid us) \<Longrightarrow> u \<in> set us \<Longrightarrow> findById (uid u) us = Some u"
proof -
  assume d: "distinct (map uid us)" and m: "u \<in> set us"
  then obtain x where x: "List.find (\<lambda>y. uid y = uid u) us = Some x"
    by (cases "List.find (\<lambda>y. uid y = uid u) us") (auto simp: find_None_iff)
  then have "x \<in> set us" "uid x = uid u" using find_mem[OF x] by simp_all
  then have "x = u" using d m uid_unique by blast
  then show ?thesis using x by (simp add: findById_def)
qed

lemma findById_save_hit:
  "findById i us = Some u \<Longrightarrow> uid u' = i \<Longrightarrow> findById i (save u' us) = Some u'"
  unfolding findById_def using find_mem[of "\<lambda>x. uid x = i" us u]
  by (intro find_save_same) auto

lemma findById_save_other: "uid u' \<noteq> i \<Longrightarrow> findById i (save u' us) = findById i us"
proof -
  assume n: "uid u' \<noteq> i"
  let ?f = "\<lambda>x. if uid x = uid u' then u' else x"
  have "List.find (\<lambda>x. uid x = i) (map ?f us) = map_option ?f (List.find (\<lambda>x. uid x = i) us)"
    by (rule find_map_pres) auto
  moreover have "map_option ?f (List.find (\<lambda>x. uid x = i) us) = List.find (\<lambda>x. uid x = i) us"
  proof (cases "List.find (\<lambda>x. uid x = i) us")
    case None then show ?thesis by simp
  next
    case (Some x)
    then have "uid x = i" using find_mem by fastforce
    then show ?thesis using Some n by auto
  qed
  ultimately show ?thesis by (simp add: findById_def save_def)
qed

lemma findOne_save_pres:
  assumes d: "distinct (map uid us)" and m: "u \<in> set us" and i: "uid u' = uid u" and p: "P u' = P u"
  shows "findOne P (save u' us) = map_option (\<lambda>x. if uid x = uid u' then u' else x) (findOne P us)"
  unfolding findOne_def save_def
proof (rule find_map_pres, intro ballI)
  fix x assume x: "x \<in> set us"
  show "P (if uid x = uid u' then u' else x) = P x"
  proof (cases "uid x = uid u'")
    case True
    then have "x = u" using d m x i uid_unique by metis
    then show ?thesis using True p by simp
  next
    case False then show ?thesis by simp
  qed
qed

section \<open>Login: failed attempts and the lock\<close>

text \<open>
  Claim C1. A login that names a known, verified, unlocked account with a wrong password
  adds 1 to \<open>loginAttempts\<close>, sets \<open>accountLocked\<close> exactly when the new count has reached
  5, writes the document back (a later lookup by the email finds the new values) and
  answers 400 \<open>Invalid credentials\<close>. Once \<open>accountLocked\<close> is set, a login to that email
  answers 401 with the locked message and changes nothing, whatever the password and
  whatever requests (\<open>run\<close>, over the routes whose handlers are in the sources) have been
  served in between. Identifiers are distinct, as the database keeps them.
\<close>

theorem login_wrong_password_counts_then_locks:
  assumes d: "distinct (map uid (users st))"
    and f: "findOne (\<lambda>x. email x = castEmail em) (users st) = Some u"
  shows "(isVerified u \<and> \<not> accountLocked u \<and> password u = Some h \<and> \<not> bcrypt_compare pw h \<longrightarrow>
            (let u' = u\<lparr>loginAttempts := loginAttempts u + 1,
                         accountLocked := (loginAttempts u + 1 \<ge> 5)\<rparr>
             in loginUser ev em pw st = (msg 400 ''Invalid credentials'', st\<lparr>users := save u' (users st)\<rparr>)
                \<and> findOne (\<lambda>x. email x = castEmail em) (save u' (users st)) = Some u'))
       \<and> (accountLocked u \<longrightarrow>
            (\<forall>evs ev' pw'. loginUser ev' em pw' (run evs st) = (msg 401 lockedMessage, run evs st)))"
proof (intro conjI impI)
  assume a: "isVerified u \<and> \<not> accountLocked u \<and> password u = Some h \<and> \<not> bcrypt_compare pw h"
  define u' where "u' = u\<lparr>loginAttempts := loginAttempts u + 1,
                         accountLocked := (loginAttempts u + 1 \<ge> 5)\<rparr>"
  have e: "email u = castEmail em" using findOne_mem[OF f] by simp
  have 1: "loginUser ev em pw st = (msg 400 ''Invalid credentials'', st\<lparr>users := save u' (users st)\<rparr>)"
    using f a by (simp add: loginUser_def Let_def u'_def)
  have 2: "findOne (\<lambda>x. email x = castEmail em) (save u' (users st)) = Some u'"
    unfolding findOne_def
    by (rule find_save_same[of _ _ u]) (use f e in \<open>simp_all add: findOne_def u'_def\<close>)
  show "let u' = u\<lparr>loginAttempts := loginAttempts u + 1,
                         accountLocked := (loginAttempts u + 1 \<ge> 5)\<rparr>
        in loginUser ev em pw st = (msg 400 ''Invalid credentials'', st\<lparr>users := save u' (users st)\<rparr>)
           \<and> findOne (\<lambda>x. email x = castEmail em) (save u' (users st)) = Some u'"
    using 1 2 by (simp add: Let_def u'_def)
next
  assume l: "accountLocked u"
  show "\<forall>evs ev' pw'. loginUser ev' em pw' (run evs st) = (msg 401 lockedMessage, run evs st)"
  proof (intro allI)
    fix evs ev' pw'
    have ku: "\<And>a b. later a b \<Longrightarrow> uid b = uid a" by (simp add: later_def keeps_def)
    have ke: "\<And>a b. later a b \<Longrightarrow> email b = email a" by (simp add: later_def keeps_def)
    have "distinct (map uid (users (run evs st))) \<and> evolves later (users st) (users (run evs st))"
      using later_refl later_trans ku run_upd d by (rule upd_evolves)
    then have e: "evolves later (users st) (users (run evs st))" by (rule conjunct2)
    have ff: "List.find (\<lambda>x. email x = castEmail em) (users st) = Some u"
      using f by (simp add: findOne_def)
    from find_evolves[OF e ke ff]
    obtain w where w: "List.find (\<lambda>x. email x = castEmail em) (users (run evs st)) = Some w"
      and lw: "later u w" by blast
    have "accountLocked w" using lw l by (simp add: later_def keeps_def)
    then show "loginUser ev' em pw' (run evs st) = (msg 401 lockedMessage, run evs st)"
      using w by (simp add: loginUser_def findOne_def)
  qed
qed

theorem login_wrong_password_counts_then_locks_witness:
  "distinct (map uid (users db))
   \<and> findOne (\<lambda>x. email x = castEmail ''dave@example.com'') (users db) = Some dave
   \<and> isVerified dave \<and> \<not> accountLocked dave \<and> loginAttempts dave = 3
   \<and> \<not> bcrypt_compare ''guess'' (bcrypt_hash ''p4ss'' ''salt4'')
   \<and> fst (loginUser env0 ''dave@example.com'' ''guess'' db) = msg 400 ''Invalid credentials''
   \<and> map loginAttempts (users (snd (loginUser env0 ''dave@example.com'' ''guess'' db))) = [0, 0, 5, 4]
   \<and> findOne (\<lambda>x. email x = castEmail ''carol@example.com'') (users db) = Some carol
   \<and> accountLocked carol \<and> bcrypt_compare ''tr0ub4dor'' (bcrypt_hash ''tr0ub4dor'' ''salt3'')
   \<and> fst (loginUser env0 ''carol@example.com'' ''tr0ub4dor''
             (run [(env0, PostForgotPassword ''carol@example.com''),
                   (env0, PostLogin ''dave@example.com'' ''guess'')] db))
       = msg 401 lockedMessage"
proof -
  have d: "distinct (map uid (users db))" by code_simp
  have f1: "findOne (\<lambda>x. email x = castEmail ''dave@example.com'') (users db) = Some dave" by code_simp
  have f2: "findOne (\<lambda>x. email x = castEmail ''carol@example.com'') (users db) = Some carol" by code_simp
  have v: "isVerified dave \<and> \<not> accountLocked dave \<and> password dave = Some (bcrypt_hash ''p4ss'' ''salt4'')
        \<and> \<not> bcrypt_compare ''guess'' (bcrypt_hash ''p4ss'' ''salt4'')" by code_simp
  have a: "loginAttempts dave = 3" by code_simp
  have l: "accountLocked carol" by code_simp
  have c: "bcrypt_compare ''tr0ub4dor'' (bcrypt_hash ''tr0ub4dor'' ''salt3'')" by code_simp
  have m: "map loginAttempts (users (snd (loginUser env0 ''dave@example.com'' ''guess'' db))) = [0, 0, 5, 4]"
    by code_simp
  note th1 = login_wrong_password_counts_then_locks[OF d f1, of "bcrypt_hash ''p4ss'' ''salt4''" "''guess''" env0]
  note th2 = login_wrong_password_counts_then_locks[OF d f2, of "bcrypt_hash ''p4ss'' ''salt4''" "''guess''" env0]
  have "let u' = dave\<lparr>loginAttempts := loginAttempts dave + 1,
                         accountLocked := (loginAttempts dave + 1 \<ge> 5)\<rparr>
        in loginUser env0 ''dave@example.com'' ''guess'' db
             = (msg 400 ''Invalid credentials'', db\<lparr>users := save u' (users db)\<rparr>)
           \<and> findOne (\<lambda>x. email x = castEmail ''dave@example.com'') (save u' (users db)) = Some u'"
    using th1 v by blast
  then have t1: "fst (loginUser env0 ''dave@example.com'' ''guess'' db) = msg 400 ''Invalid credentials''"
    unfolding Let_def by (metis fst_conv)
  have "loginUser env0 ''carol@example.com'' ''tr0ub4dor''
             (run [(env0, PostForgotPassword ''carol@example.com''),
                   (env0, PostLogin ''dave@example.com'' ''guess'')] db)
            = (msg 401 lockedMessage,
               run [(env0, PostForgotPassword ''carol@example.com''),
                    (env0, PostLogin ''dave@example.com'' ''guess'')] db)"
    using th2 l by blast
  then have t2: "fst (loginUser env0 ''carol@example.com'' ''tr0ub4dor''
             (run [(env0, PostForgotPassword ''carol@example.com''),
                   (env0, PostLogin ''dave@example.com'' ''guess'')] db))
       = msg 401 lockedMessage"
    by (metis fst_conv)
  show ?thesis using d f1 f2 v a l c m t1 t2 by blast
qed

section \<open>Login and account enumeration\<close>

text \<open>
  Claim C8. A login naming an email that no user has, and a login naming a verified,
  unlocked user with a wrong password, receive the same response: status 400 and the
  message \<open>Invalid credentials\<close>.
\<close>

theorem login_unknown_email_and_wrong_password_same_response:
  assumes "findOne (\<lambda>x. email x = castEmail em1) (users st1) = None"
    and "findOne (\<lambda>x. email x = castEmail em2) (users st2) = Some u"
    and "isVerified u" and "\<not> accountLocked u"
    and "password u = Some h" and "\<not> bcrypt_compare pw2 h"
  shows "fst (loginUser ev1 em1 pw1 st1) = fst (loginUser ev2 em2 pw2 st2)
       \<and> status (fst (loginUser ev1 em1 pw1 st1)) = 400
       \<and> message (fst (loginUser ev1 em1 pw1 st1)) = Some ''Invalid credentials''"
  using assms by (simp add: loginUser_def Let_def msg_def)

theorem login_unknown_email_and_wrong_password_same_response_witness:
  "findOne (\<lambda>x. email x = castEmail ''nobody@example.com'') (users db) = None
   \<and> findOne (\<lambda>x. email x = castEmail ''alice@example.com'') (users db) = Some alice
   \<and> isVerified alice \<and> \<not> accountLocked alice
   \<and> \<not> bcrypt_compare ''guess'' (bcrypt_hash ''correct horse'' ''salt1'')
   \<and> fst (loginUser env0 ''nobody@example.com'' ''guess'' db)
       = fst (loginUser env0 ''alice@example.com'' ''guess'' db)
   \<and> status (fst (loginUser env0 ''nobody@example.com'' ''guess'' db)) = 400"
proof -
  have f1: "findOne (\<lambda>x. email x = castEmail ''nobody@example.com'') (users db) = None" by code_simp
  have f2: "findOne (\<lambda>x. email x = castEmail ''alice@example.com'') (users db) = Some alice" by code_simp
  have v: "isVerified alice" by code_simp
  have l: "\<not> accountLocked alice" by code_simp
  have p: "password alice = Some (bcrypt_hash ''correct horse'' ''salt1'')" by code_simp
  have c: "\<not> bcrypt_compare ''guess'' (bcrypt_hash ''correct horse'' ''salt1'')" by simp
  show ?thesis
    using login_unknown_email_and_wrong_password_same_response[OF f1 f2 v l p c, of env0 "''guess''" env0]
      f1 f2 v l c by blast
qed

section \<open>Login of an unverified account\<close>

text \<open>
  Claim C2. A login to an existing, unlocked account that is not verified and has no OAuth
  linkage overwrites \<open>verificationToken\<close> and \<open>verificationTokenExpiry\<close> with the freshly
  drawn token and the time 24 hours ahead, writes the document back, sends the
  verification mail again and answers 401, whatever the password. When the drawn token is
  fresh (it differs from the previous one) and the previous token belonged to this account
  alone, the previous token matches no user afterwards: verifying with it is refused.
\<close>

theorem login_unverified_rotates_verification_token:
  assumes f: "findOne (\<lambda>x. email x = castEmail em) (users st) = Some u"
    and l: "\<not> accountLocked u" and v: "\<not> isVerified u" and g: "falsy (googleId u)"
  shows "let u' = u\<lparr>verificationToken := Some (randomHex ev),
                     verificationTokenExpiry := Some (now ev + 24 * 60 * 60 * 1000)\<rparr>;
             st' = st\<lparr>users := save u' (users st),
                      mailLog := mailLog st @
                        [\<lparr>mail_to = em, mail_subject = ''Verify your email address'',
                          mail_token = randomHex ev\<rparr>]\<rparr>
         in loginUser ev em pw st = (msg 401 verifyFirstMessage, st')
            \<and> findOne (\<lambda>x. email x = castEmail em) (users st') = Some u'
            \<and> (\<forall>old. verificationToken u = Some old \<and> old \<noteq> randomHex ev
                      \<and> (\<forall>x \<in> set (users st). verificationToken x = Some old \<longrightarrow> uid x = uid u)
                  \<longrightarrow> findOne (\<lambda>x. verificationToken x = Some old) (users st') = None
                      \<and> verifyEmail old st' = (msg 400 ''Invalid verification token'', st'))"
proof -
  define u' where "u' = u\<lparr>verificationToken := Some (randomHex ev),
                     verificationTokenExpiry := Some (now ev + 24 * 60 * 60 * 1000)\<rparr>"
  define st' where "st' = st\<lparr>users := save u' (users st),
                      mailLog := mailLog st @
                        [\<lparr>mail_to = em, mail_subject = ''Verify your email address'',
                          mail_token = randomHex ev\<rparr>]\<rparr>"
  have e: "email u = castEmail em" using findOne_mem[OF f] by simp
  have 1: "loginUser ev em pw st = (msg 401 verifyFirstMessage, st')"
    using f l v g by (simp add: loginUser_def Let_def u'_def st'_def facebookId_def falsy_def)
  have "List.find (\<lambda>x. email x = castEmail em) (save u' (users st)) = Some u'"
    by (rule find_save_same[of _ _ u]) (use f e in \<open>simp_all add: findOne_def u'_def\<close>)
  then have 2: "findOne (\<lambda>x. email x = castEmail em) (users st') = Some u'"
    by (simp add: findOne_def st'_def)
  have 3: "findOne (\<lambda>x. verificationToken x = Some old) (users st') = None
           \<and> verifyEmail old st' = (msg 400 ''Invalid verification token'', st')"
    if o: "verificationToken u = Some old" and n: "old \<noteq> randomHex ev"
      and only: "\<forall>x \<in> set (users st). verificationToken x = Some old \<longrightarrow> uid x = uid u" for old
  proof -
    have "\<forall>x \<in> set (save u' (users st)). verificationToken x \<noteq> Some old"
      using n only by (auto simp: save_def u'_def)
    then have "findOne (\<lambda>x. verificationToken x = Some old) (users st') = None"
      by (simp add: findOne_def find_None_iff st'_def)
    then show ?thesis by (simp add: verifyEmail_def)
  qed
  show ?thesis using 1 2 3 unfolding Let_def u'_def[symmetric] st'_def[symmetric] by blast
qed

theorem login_unverified_rotates_verification_token_witness:
  "findOne (\<lambda>x. email x = castEmail ''bob@example.com'') (users db) = Some bob
   \<and> \<not> accountLocked bob \<and> \<not> isVerified bob \<and> falsy (googleId bob)
   \<and> verificationToken bob = Some ''aa11'' \<and> ''aa11'' \<noteq> randomHex env0
   \<and> bcrypt_compare ''hunter2'' (bcrypt_hash ''hunter2'' ''salt2'')
   \<and> fst (loginUser env0 ''bob@example.com'' ''hunter2'' db) = msg 401 verifyFirstMessage
   \<and> map verificationToken (users (snd (loginUser env0 ''bob@example.com'' ''hunter2'' db)))
       = [None, Some ''9f8e7d'', None, None]
   \<and> map mail_token (mailLog (snd (loginUser env0 ''bob@example.com'' ''hunter2'' db))) = [''9f8e7d'']
   \<and> fst (verifyEmail ''aa11'' (snd (loginUser env0 ''bob@example.com'' ''hunter2'' db)))
       = msg 400 ''Invalid verification token''"
proof -
  have f: "findOne (\<lambda>x. email x = castEmail ''bob@example.com'') (users db) = Some bob" by code_simp
  have l: "\<not> accountLocked bob" by code_simp
  have v: "\<not> isVerified bob" by code_simp
  have g: "falsy (googleId bob)" by code_simp
  have o: "verificationToken bob = Some ''aa11''" by code_simp
  have n: "''aa11'' \<noteq> randomHex env0" by code_simp
  have only: "\<forall>x \<in> set (users db). verificationToken x = Some ''aa11'' \<longrightarrow> uid x = uid bob" by code_simp
  have c: "bcrypt_compare ''hunter2'' (bcrypt_hash ''hunter2'' ''salt2'')" by code_simp
  have m1: "map verificationToken (users (snd (loginUser env0 ''bob@example.com'' ''hunter2'' db)))
       = [None, Some ''9f8e7d'', None, None]" by code_simp
  have m2: "map mail_token (mailLog (snd (loginUser env0 ''bob@example.com'' ''hunter2'' db))) = [''9f8e7d'']"
    by code_simp
  note th = login_unverified_rotates_verification_token[OF f l v g, of env0 "''hunter2''", unfolded Let_def]
  have r: "fst (loginUser env0 ''bob@example.com'' ''hunter2'' db) = msg 401 verifyFirstMessage"
    using th by (metis fst_conv)
  have s: "loginUser env0 ''bob@example.com'' ''hunter2'' db = (msg 401 verifyFirstMessage,
             snd (loginUser env0 ''bob@example.com'' ''hunter2'' db))"
    using r by (metis prod.collapse)
  have "verifyEmail ''aa11'' (snd (loginUser env0 ''bob@example.com'' ''hunter2'' db))
          = (msg 400 ''Invalid verification token'', snd (loginUser env0 ''bob@example.com'' ''hunter2'' db))"
    using th o n only by (metis snd_conv)
  then have t: "fst (verifyEmail ''aa11'' (snd (loginUser env0 ''bob@example.com'' ''hunter2'' db)))
       = msg 400 ''Invalid verification token''" by (metis fst_conv)
  show ?thesis using f l v g o n c r m1 m2 t by blast
qed

section \<open>Registration with an email that is taken\<close>

text \<open>
  Claim C3, as the specification states it: a registration whose email belongs to an
  existing user is rejected with status 409. The handler answers 400.
\<close>

theorem register_taken_email_is_not_409:
  "findOne (\<lambda>x. email x = castEmail ''alice@example.com'') (users db) = Some alice
   \<and> register env0 (Some ''Al'') (Some ''alice@example.com'') (Some ''s3cret'') db
       = (msg 400 ''User already exists'', db)
   \<and> status (fst (register env0 (Some ''Al'') (Some ''alice@example.com'') (Some ''s3cret'') db)) \<noteq> 409"
  by code_simp

text \<open>
  Claim C3, amended: a registration whose email belongs to an existing user is rejected
  with status 400 (message \<open>User already exists\<close> when email and password are both given
  and not empty), and the collection and the mail log are unchanged.
\<close>

theorem register_taken_email_rejected_400:
  assumes "findOne (\<lambda>x. email x = castEmail e) (users st) = Some u"
  shows "status (fst (register ev nm (Some e) pw st)) = 400
       \<and> snd (register ev nm (Some e) pw st) = st
       \<and> (e \<noteq> [] \<and> \<not> falsy pw \<longrightarrow>
            fst (register ev nm (Some e) pw st) = msg 400 ''User already exists'')"
  using assms by (auto simp: register_def msg_def falsy_def split: option.splits)

theorem register_taken_email_rejected_400_witness:
  "findOne (\<lambda>x. email x = castEmail ''alice@example.com'') (users db) = Some alice
   \<and> ''alice@example.com'' \<noteq> [] \<and> \<not> falsy (Some ''s3cret'')
   \<and> status (fst (register env0 None (Some ''alice@example.com'') (Some ''s3cret'') db)) = 400
   \<and> snd (register env0 None (Some ''alice@example.com'') (Some ''s3cret'') db) = db
   \<and> fst (register env0 None (Some ''alice@example.com'') (Some ''s3cret'') db)
       = msg 400 ''User already exists''"
proof -
  have f: "findOne (\<lambda>x. email x = castEmail ''alice@example.com'') (users db) = Some alice" by code_simp
  have n: "''alice@example.com'' \<noteq> [] \<and> \<not> falsy (Some ''s3cret'')" by code_simp
  show ?thesis
    using register_taken_email_rejected_400[OF f, of env0 None "Some ''s3cret''"] f n by blast
qed

section \<open>Email verification\<close>

text \<open>
  Claim C4 says that a successful verification clears both \<open>verificationToken\<close> and
  \<open>verificationTokenExpiry\<close>. \<open>verifyEmail\<close> sets \<open>isVerified\<close> and clears the token only:
  verifying \<open>bob\<close> with his token leaves his expiry stored.
\<close>

theorem verifyEmail_keeps_expiry:
  "findOne (\<lambda>x. verificationToken x = Some ''aa11'') (users db) = Some bob
   \<and> verificationTokenExpiry bob = Some 1700000000000
   \<and> status (fst (verifyEmail ''aa11'' db)) = 200
   \<and> map_option isVerified (findById (uid bob) (users (snd (verifyEmail ''aa11'' db)))) = Some True
   \<and> map_option verificationToken (findById (uid bob) (users (snd (verifyEmail ''aa11'' db)))) = Some None
   \<and> map_option verificationTokenExpiry (findById (uid bob) (users (snd (verifyEmail ''aa11'' db))))
       = Some (Some 1700000000000)"
  by code_simp

section \<open>Password reset\<close>

text \<open>
  Claim C5. A password reset whose token matches a user with an expiry later than now
  stores the hash of the new password and clears \<open>resetPasswordToken\<close> and
  \<open>resetPasswordExpiry\<close> on that user; \<open>accountLocked\<close>, \<open>loginAttempts\<close> and every other
  path of the document are as before, as are all other documents and the mail log.
\<close>

theorem resetPassword_changes_only_password_and_reset_token:
  assumes d: "distinct (map uid (users st))"
    and f: "findOne (\<lambda>x. resetPasswordToken x = Some token \<and>
                         (case resetPasswordExpiry x of None \<Rightarrow> False | Some t \<Rightarrow> t > now ev))
              (users st) = Some u"
  shows "let u' = u\<lparr>password := Some (bcrypt_hash pw (salt ev)),
                     resetPasswordToken := None, resetPasswordExpiry := None\<rparr>;
             st' = st\<lparr>users := save u' (users st)\<rparr>
         in resetPassword ev token pw st = (msg 200 ''Password reset successful'', st')
            \<and> findById (uid u) (users st') = Some u'
            \<and> accountLocked u' = accountLocked u \<and> loginAttempts u' = loginAttempts u
            \<and> u'\<lparr>password := password u, resetPasswordToken := resetPasswordToken u,
                  resetPasswordExpiry := resetPasswordExpiry u\<rparr> = u
            \<and> (\<forall>i. i \<noteq> uid u \<longrightarrow> findById i (users st') = findById i (users st))
            \<and> mailLog st' = mailLog st"
proof -
  define u' where "u' = u\<lparr>password := Some (bcrypt_hash pw (salt ev)),
                     resetPasswordToken := None, resetPasswordExpiry := None\<rparr>"
  have i: "uid u' = uid u" by (simp add: u'_def)
  have m: "u \<in> set (users st)" using findOne_mem[OF f] by simp
  have 1: "resetPassword ev token pw st
             = (msg 200 ''Password reset successful'', st\<lparr>users := save u' (users st)\<rparr>)"
    using f by (simp add: resetPassword_def Let_def u'_def)
  have 2: "findById (uid u) (save u' (users st)) = Some u'"
    using findById_distinct[OF d m] i by (rule findById_save_hit)
  have 3: "\<forall>i. i \<noteq> uid u \<longrightarrow> findById i (save u' (users st)) = findById i (users st)"
    using i by (simp add: findById_save_other)
  have 4: "u'\<lparr>password := password u, resetPasswordToken := resetPasswordToken u,
                  resetPasswordExpiry := resetPasswordExpiry u\<rparr> = u"
    by (simp add: u'_def)
  have 5: "accountLocked u' = accountLocked u \<and> loginAttempts u' = loginAttempts u"
    by (simp add: u'_def)
  show ?thesis unfolding Let_def u'_def[symmetric] using 1 2 3 4 5 by simp
qed

theorem resetPassword_changes_only_password_and_reset_token_witness:
  "distinct (map uid (users db))
   \<and> findOne (\<lambda>x. resetPasswordToken x = Some ''bb22'' \<and>
                   (case resetPasswordExpiry x of None \<Rightarrow> False | Some t \<Rightarrow> t > now env0))
        (users db) = Some dave
   \<and> fst (resetPassword env0 ''bb22'' ''n3w'' db) = msg 200 ''Password reset successful''
   \<and> findById (uid dave) (users (snd (resetPassword env0 ''bb22'' ''n3w'' db)))
       = Some (dave\<lparr>password := Some (bcrypt_hash ''n3w'' (salt env0)),
                     resetPasswordToken := None, resetPasswordExpiry := None\<rparr>)
   \<and> map loginAttempts (users (snd (resetPassword env0 ''bb22'' ''n3w'' db))) = [0, 0, 5, 3]
   \<and> map accountLocked (users (snd (resetPassword env0 ''bb22'' ''n3w'' db))) = [False, False, True, False]"
proof -
  have d: "distinct (map uid (users db))" by code_simp
  have f: "findOne (\<lambda>x. resetPasswordToken x = Some ''bb22'' \<and>
                   (case resetPasswordExpiry x of None \<Rightarrow> False | Some t \<Rightarrow> t > now env0))
        (users db) = Some dave" by code_simp
  have m1: "map loginAttempts (users (snd (resetPassword env0 ''bb22'' ''n3w'' db))) = [0, 0, 5, 3]"
    by code_simp
  have m2: "map accountLocked (users (snd (resetPassword env0 ''bb22'' ''n3w'' db))) = [False, False, True, False]"
    by code_simp
  note th = resetPassword_changes_only_password_and_reset_token[OF d f, of "''n3w''", unfolded Let_def]
  have r: "resetPassword env0 ''bb22'' ''n3w'' db = (msg 200 ''Password reset successful'',
             db\<lparr>users := save (dave\<lparr>password := Some (bcrypt_hash ''n3w'' (salt env0)),
                     resetPasswordToken := None, resetPasswordExpiry := None\<rparr>) (users db)\<rparr>)"
    using th by (rule conjunct1)
  have r1: "fst (resetPassword env0 ''bb22'' ''n3w'' db) = msg 200 ''Password reset successful''"
    using r by (metis fst_conv)
  have r2: "snd (resetPassword env0 ''bb22'' ''n3w'' db)
              = db\<lparr>users := save (dave\<lparr>password := Some (bcrypt_hash ''n3w'' (salt env0)),
                     resetPasswordToken := None, resetPasswordExpiry := None\<rparr>) (users db)\<rparr>"
    using r by (metis snd_conv)
  have "findById (uid dave) (users (db\<lparr>users := save (dave\<lparr>password := Some (bcrypt_hash ''n3w'' (salt env0)),
                     resetPasswordToken := None, resetPasswordExpiry := None\<rparr>) (users db)\<rparr>))
         = Some (dave\<lparr>password := Some (bcrypt_hash ''n3w'' (salt env0)),
                     resetPasswordToken := None, resetPasswordExpiry := None\<rparr>)"
    using th by blast
  then have r3: "findById (uid dave) (users (snd (resetPassword env0 ''bb22'' ''n3w'' db)))
       = Some (dave\<lparr>password := Some (bcrypt_hash ''n3w'' (salt env0)),
                     resetPasswordToken := None, resetPasswordExpiry := None\<rparr>)"
    using r2 by metis
  show ?thesis using d f r1 r3 m1 m2 by blast
qed

section \<open>OAuth sign-in\<close>

text \<open>
  Claim C7. A Google sign-in never lowers \<open>isVerified\<close>: every stored document that was
  verified before the call is verified after it. For the existing user the payload's
  email names, the stored \<open>isVerified\<close> after the call is true exactly when it was true
  before or the payload's \<open>email_verified\<close> is set.
\<close>

theorem googleLogin_never_lowers_isVerified:
  assumes d: "distinct (map uid (users st))"
  shows "(let us = users st; us' = users (snd (googleLogin ev idToken st))
          in length us \<le> length us'
             \<and> (\<forall>i < length us. uid (us' ! i) = uid (us ! i)
                    \<and> (isVerified (us ! i) \<longrightarrow> isVerified (us' ! i))))
       \<and> (\<forall>t gemail gname picture sub email_verified u.
             idToken = Some t \<and> t \<noteq> []
             \<and> googleVerify ev t = Payload gemail gname picture sub email_verified
             \<and> findOne (\<lambda>x. email x = castEmail gemail) (users st) = Some u
             \<longrightarrow> (\<exists>u'. findOne (\<lambda>x. email x = castEmail gemail) (users (snd (googleLogin ev idToken st)))
                          = Some u'
                       \<and> uid u' = uid u
                       \<and> isVerified u' = (isVerified u \<or> email_verified)))"
proof (intro conjI allI impI)
  have ku: "\<And>a b. same a b \<Longrightarrow> uid b = uid a" by (simp add: same_def keeps_def)
  have "distinct (map uid (users (snd (googleLogin ev idToken st))))
        \<and> evolves same (users st) (users (snd (googleLogin ev idToken st)))"
    using same_refl same_trans ku googleLogin_upd d by (rule upd_evolves)
  then show "let us = users st; us' = users (snd (googleLogin ev idToken st))
          in length us \<le> length us'
             \<and> (\<forall>i < length us. uid (us' ! i) = uid (us ! i)
                    \<and> (isVerified (us ! i) \<longrightarrow> isVerified (us' ! i)))"
    by (simp add: Let_def evolves_def same_def keeps_def)
next
  fix t gemail gname picture sub email_verified u
  assume a: "idToken = Some t \<and> t \<noteq> []
             \<and> googleVerify ev t = Payload gemail gname picture sub email_verified
             \<and> findOne (\<lambda>x. email x = castEmail gemail) (users st) = Some u"
  let ?P = "\<lambda>x. email x = castEmail gemail"
  define user1 where "user1 = (if falsy (googleId u) then u\<lparr>googleId := Some sub\<rparr> else u)"
  define us1 where "us1 = (if falsy (googleId u) then save user1 (users st) else users st)"
  define user2 where "user2 = (if \<not> isVerified user1 \<and> email_verified then user1\<lparr>isVerified := True\<rparr> else user1)"
  define us2 where "us2 = (if \<not> isVerified user1 \<and> email_verified then save user2 us1 else us1)"
  have f0: "List.find ?P (users st) = Some u" using a by (simp add: findOne_def)
  have e: "email u = castEmail gemail" using find_mem[OF f0] by simp
  have f1: "List.find ?P us1 = Some user1"
  proof (cases "falsy (googleId u)")
    case True
    have "List.find ?P (save user1 (users st)) = Some user1"
      by (rule find_save_same[OF f0]) (use e True in \<open>simp_all add: user1_def\<close>)
    then show ?thesis using True by (simp add: us1_def)
  next
    case False
    then show ?thesis using f0 by (simp add: us1_def user1_def)
  qed
  have e1: "email user1 = castEmail gemail" using find_mem[OF f1] by simp
  have f2: "List.find ?P us2 = Some user2"
  proof (cases "\<not> isVerified user1 \<and> email_verified")
    case True
    have "List.find ?P (save user2 us1) = Some user2"
      by (rule find_save_same[OF f1]) (use e1 True in \<open>simp_all add: user2_def\<close>)
    then show ?thesis using True by (simp add: us2_def)
  next
    case False
    then have "us2 = us1" and "user2 = user1" by (auto simp: us2_def user2_def)
    then show ?thesis using f1 by simp
  qed
  have u2: "users (snd (googleLogin ev idToken st)) = us2"
    using a by (simp add: googleLogin_def Let_def falsy_def us2_def user2_def us1_def user1_def)
  have "uid user2 = uid u \<and> isVerified user2 = (isVerified u \<or> email_verified)"
    by (auto simp: user2_def user1_def)
  then show "\<exists>u'. findOne ?P (users (snd (googleLogin ev idToken st))) = Some u'
                 \<and> uid u' = uid u \<and> isVerified u' = (isVerified u \<or> email_verified)"
    using f2 u2 by (simp add: findOne_def)
qed

theorem googleLogin_never_lowers_isVerified_witness:
  "distinct (map uid (users db))
   \<and> googleVerify env0 ''google-token-bob'' = Payload ''bob@example.com'' (Some ''Bob'') None ''g-117'' True
   \<and> findOne (\<lambda>x. email x = castEmail ''bob@example.com'') (users db) = Some bob
   \<and> map isVerified (users db) = [True, False, True, True]
   \<and> map isVerified (users (snd (googleLogin env0 (Some ''google-token-bob'') db))) = [True, True, True, True]
   \<and> length (users db) \<le> length (users (snd (googleLogin env0 (Some ''google-token-bob'') db)))
   \<and> isVerified (users (snd (googleLogin env0 (Some ''google-token-bob'') db)) ! 0)
   \<and> map_option isVerified
         (findOne (\<lambda>x. email x = castEmail ''bob@example.com'')
            (users (snd (googleLogin env0 (Some ''google-token-bob'') db)))) = Some True"
proof -
  have d: "distinct (map uid (users db))" by code_simp
  have g: "googleVerify env0 ''google-token-bob'' = Payload ''bob@example.com'' (Some ''Bob'') None ''g-117'' True"
    by code_simp
  have f: "findOne (\<lambda>x. email x = castEmail ''bob@example.com'') (users db) = Some bob" by code_simp
  have m0: "map isVerified (users db) = [True, False, True, True]" by code_simp
  have m1: "map isVerified (users (snd (googleLogin env0 (Some ''google-token-bob'') db))) = [True, True, True, True]"
    by code_simp
  have z: "0 < length (users db)" by code_simp
  have a: "isVerified (users db ! 0)" by code_simp
  note th = googleLogin_never_lowers_isVerified[OF d, of env0 "Some ''google-token-bob''", unfolded Let_def]
  have l: "length (users db) \<le> length (users (snd (googleLogin env0 (Some ''google-token-bob'') db)))"
    using th by blast
  have k: "isVerified (users (snd (googleLogin env0 (Some ''google-token-bob'') db)) ! 0)"
    using th z a by blast
  have ne: "''google-token-bob'' \<noteq> []" by simp
  have "\<exists>u'. findOne (\<lambda>x. email x = castEmail ''bob@example.com'')
               (users (snd (googleLogin env0 (Some ''google-token-bob'') db))) = Some u'
             \<and> uid u' = uid bob \<and> isVerified u' = (isVerified bob \<or> True)"
    using th g f ne by blast
  then have x: "map_option isVerified
         (findOne (\<lambda>x. email x = castEmail ''bob@example.com'')
            (users (snd (googleLogin env0 (Some ''google-token-bob'') db)))) = Some True"
    by auto
  show ?thesis using d g f m0 m1 l k x by blast
qed

section \<open>Applying a referral code\<close>

text \<open>
  Claim C6. When the code belongs to another user and the caller has no \<open>referredBy\<close>,
  \<open>applyReferralCode\<close> answers 200 and stores the referrer with \<open>sawabPoints\<close> + 5 and
  \<open>referralCount\<close> + 1 and the caller with \<open>sawabPoints\<close> + 2 and \<open>referredBy\<close> the referrer's
  identifier; every other path and document is as before. A second application by the same
  caller answers 400 \<open>You have already used a referral code\<close> and changes nothing.
\<close>

theorem applyReferralCode_awards_once:
  assumes d: "distinct (map uid (users st))"
    and fr: "findOne (\<lambda>x. referralCode x = Some code) (users st) = Some referrer"
    and ne: "uid referrer \<noteq> uid reqUser"
    and fc: "findById (uid reqUser) (users st) = Some currentUser"
    and nr: "referredBy currentUser = None"
  shows "let referrer' = referrer\<lparr>sawabPoints := sawabPoints referrer + 5,
                                  referralCount := referralCount referrer + 1\<rparr>;
             currentUser' = currentUser\<lparr>referredBy := Some (uid referrer),
                                        sawabPoints := sawabPoints currentUser + 2\<rparr>;
             st' = st\<lparr>users := save currentUser' (save referrer' (users st))\<rparr>
         in applyReferralCode reqUser code st
              = (Response 200 (Some ''Referral code applied successfully'')
                   (Points (sawabPoints currentUser + 2)), st')
            \<and> findById (uid referrer) (users st') = Some referrer'
            \<and> findById (uid reqUser) (users st') = Some currentUser'
            \<and> (\<forall>i. i \<noteq> uid referrer \<and> i \<noteq> uid reqUser
                   \<longrightarrow> findById i (users st') = findById i (users st))
            \<and> applyReferralCode reqUser code st'
                = (msg 400 ''You have already used a referral code'', st')"
proof -
  define referrer' where "referrer' = referrer\<lparr>sawabPoints := sawabPoints referrer + 5,
                                  referralCount := referralCount referrer + 1\<rparr>"
  define currentUser' where "currentUser' = currentUser\<lparr>referredBy := Some (uid referrer),
                                        sawabPoints := sawabPoints currentUser + 2\<rparr>"
  define us1 where "us1 = save referrer' (users st)"
  define st' where "st' = st\<lparr>users := save currentUser' us1\<rparr>"
  let ?P = "\<lambda>x. referralCode x = Some code"
  have mr: "referrer \<in> set (users st)" and pr: "?P referrer" using findOne_mem[OF fr] by simp_all
  have mc: "currentUser \<in> set (users st)" and ic: "uid currentUser = uid reqUser"
    using findById_mem[OF fc] by simp_all
  have ir: "uid referrer' = uid referrer" by (simp add: referrer'_def)
  have ic': "uid currentUser' = uid reqUser" using ic by (simp add: currentUser'_def)
  have d1: "distinct (map uid us1)" using d by (simp add: us1_def map_uid_save)
  have mc1: "currentUser \<in> set us1"
    unfolding us1_def using mc by (rule mem_save) (use ic ne ir in simp)
  have 1: "applyReferralCode reqUser code st
             = (Response 200 (Some ''Referral code applied successfully'')
                  (Points (sawabPoints currentUser + 2)), st')"
    using fr ne fc nr
    by (simp add: applyReferralCode_def Let_def st'_def us1_def currentUser'_def referrer'_def)
  have r0: "findById (uid referrer) (users st) = Some referrer" using d mr by (rule findById_distinct)
  have "findById (uid referrer) us1 = Some referrer'"
    unfolding us1_def using r0 ir by (rule findById_save_hit)
  then have 2: "findById (uid referrer) (users st') = Some referrer'"
    using ne ic' by (simp add: st'_def findById_save_other)
  have "findById (uid reqUser) us1 = Some currentUser"
    using fc ne ir by (simp add: us1_def findById_save_other)
  then have "findById (uid reqUser) (save currentUser' us1) = Some currentUser'"
    using ic' by (rule findById_save_hit)
  then have 3: "findById (uid reqUser) (users st') = Some currentUser'" by (simp add: st'_def)
  have 4: "\<forall>i. i \<noteq> uid referrer \<and> i \<noteq> uid reqUser
             \<longrightarrow> findById i (users st') = findById i (users st)"
  proof (intro allI impI)
    fix i assume "i \<noteq> uid referrer \<and> i \<noteq> uid reqUser"
    then have "uid referrer' \<noteq> i" and "uid currentUser' \<noteq> i" using ir ic' by auto
    then show "findById i (users st') = findById i (users st)"
      by (simp add: st'_def us1_def findById_save_other)
  qed
  have "List.find ?P (save referrer' (users st)) = Some referrer'"
    by (rule find_save_same[of _ _ referrer]) (use fr pr in \<open>simp_all add: findOne_def referrer'_def\<close>)
  then have fr1: "findOne ?P us1 = Some referrer'" by (simp add: findOne_def us1_def)
  have "findOne ?P (save currentUser' us1)
          = map_option (\<lambda>x. if uid x = uid currentUser' then currentUser' else x) (findOne ?P us1)"
    using d1 mc1 by (rule findOne_save_pres) (simp_all add: currentUser'_def)
  then have fr2: "findOne ?P (users st') = Some referrer'"
    using fr1 ir ic' ne by (simp add: st'_def)
  have 5: "applyReferralCode reqUser code st' = (msg 400 ''You have already used a referral code'', st')"
    using fr2 3 ir ne by (simp add: applyReferralCode_def currentUser'_def)
  show ?thesis
    unfolding Let_def referrer'_def[symmetric] currentUser'_def[symmetric] us1_def[symmetric]
      st'_def[symmetric]
    using 1 2 3 4 5 by blast
qed

theorem applyReferralCode_awards_once_witness:
  "distinct (map uid (users db))
   \<and> findOne (\<lambda>x. referralCode x = Some ''65F0A1C4'') (users db) = Some dave
   \<and> uid dave \<noteq> uid alice
   \<and> findById (uid alice) (users db) = Some alice
   \<and> referredBy alice = None
   \<and> map sawabPoints (users db) = [0, 0, 0, 7] \<and> map referralCount (users db) = [0, 0, 0, 1]
   \<and> fst (applyReferralCode alice ''65F0A1C4'' db)
       = Response 200 (Some ''Referral code applied successfully'') (Points (sawabPoints alice + 2))
   \<and> map sawabPoints (users (snd (applyReferralCode alice ''65F0A1C4'' db))) = [2, 0, 0, 12]
   \<and> map referralCount (users (snd (applyReferralCode alice ''65F0A1C4'' db))) = [0, 0, 0, 2]
   \<and> map referredBy (users (snd (applyReferralCode alice ''65F0A1C4'' db)))
       = [Some (uid dave), None, None, None]
   \<and> applyReferralCode alice ''65F0A1C4'' (snd (applyReferralCode alice ''65F0A1C4'' db))
       = (msg 400 ''You have already used a referral code'',
          snd (applyReferralCode alice ''65F0A1C4'' db))"
proof -
  have d: "distinct (map uid (users db))" by code_simp
  have fr: "findOne (\<lambda>x. referralCode x = Some ''65F0A1C4'') (users db) = Some dave" by code_simp
  have ne: "uid dave \<noteq> uid alice" by code_simp
  have fc: "findById (uid alice) (users db) = Some alice" by code_simp
  have nr: "referredBy alice = None" by code_simp
  have m0: "map sawabPoints (users db) = [0, 0, 0, 7] \<and> map referralCount (users db) = [0, 0, 0, 1]"
    by code_simp
  have m1: "map sawabPoints (users (snd (applyReferralCode alice ''65F0A1C4'' db))) = [2, 0, 0, 12]"
    by code_simp
  have m2: "map referralCount (users (snd (applyReferralCode alice ''65F0A1C4'' db))) = [0, 0, 0, 2]"
    by code_simp
  have m3: "map referredBy (users (snd (applyReferralCode alice ''65F0A1C4'' db)))
       = [Some (uid dave), None, None, None]" by code_simp
  note th = applyReferralCode_awards_once[OF d fr ne fc nr, unfolded Let_def]
  have r1: "fst (applyReferralCode alice ''65F0A1C4'' db)
       = Response 200 (Some ''Referral code applied successfully'') (Points (sawabPoints alice + 2))"
    using th by (metis fst_conv)
  have r2: "applyReferralCode alice ''65F0A1C4'' (snd (applyReferralCode alice ''65F0A1C4'' db))
       = (msg 400 ''You have already used a referral code'',
          snd (applyReferralCode alice ''65F0A1C4'' db))"
    using th by (metis snd_conv)
  show ?thesis using d fr ne fc nr m0 m1 m2 m3 r1 r2 by blast
qed

section \<open>The bound on failed attempts\<close>

text \<open>
  Claim C9. Through every sequence of requests (\<open>run\<close>, over the routes whose handlers
  are in the sources), served one after the other, every account keeps \<open>loginAttempts\<close> between 0 and 5, with the account locked when the count is
  5, provided that this holds at the start (an account just created has count 0). A
  request other than a login leaves the \<open>loginAttempts\<close> of every existing account as it
  was, and a login with the right password to a verified, unlocked account stores the
  count 0. Identifiers are distinct, as the database keeps them.
\<close>

theorem loginAttempts_stays_within_0_and_5:
  assumes d: "distinct (map uid (users st))"
    and a: "\<forall>u \<in> set (users st). 0 \<le> loginAttempts u \<and> loginAttempts u \<le> 5
                \<and> (loginAttempts u = 5 \<longrightarrow> accountLocked u)"
  shows "(\<forall>u \<in> set (users (run evs st)). 0 \<le> loginAttempts u \<and> loginAttempts u \<le> 5
                \<and> (loginAttempts u = 5 \<longrightarrow> accountLocked u))
       \<and> (\<forall>ev rq. (\<forall>em pw. rq \<noteq> PostLogin em pw) \<longrightarrow>
              map loginAttempts (take (length (users st)) (users (step ev rq st)))
                = map loginAttempts (users st))
       \<and> (\<forall>ev em pw u h.
              findOne (\<lambda>x. email x = castEmail em) (users st) = Some u
              \<and> \<not> accountLocked u \<and> isVerified u
              \<and> password u = Some h \<and> bcrypt_compare pw h
              \<longrightarrow> status (fst (loginUser ev em pw st)) = 200
                  \<and> findOne (\<lambda>x. email x = castEmail em) (users (snd (loginUser ev em pw st)))
                      = Some (u\<lparr>loginAttempts := 0, lastLogin := Some (now ev)\<rparr>))"
proof -
  have "\<forall>x \<in> set (users st). attemptsOk x" using a by (simp add: attemptsOk_def)
  with run_upd have "\<forall>x \<in> set (users (run evs st)). attemptsOk x" by (rule upd_attemptsOk)
  then have bound: "\<forall>u \<in> set (users (run evs st)). 0 \<le> loginAttempts u \<and> loginAttempts u \<le> 5
                \<and> (loginAttempts u = 5 \<longrightarrow> accountLocked u)"
    by (simp add: attemptsOk_def)
  have others: "map loginAttempts (take (length (users st)) (users (step ev rq st)))
          = map loginAttempts (users st)"
    if nl: "\<forall>em pw. rq \<noteq> PostLogin em pw" for ev rq
  proof -
    have ku: "\<And>a b. same a b \<Longrightarrow> uid b = uid a" by (simp add: same_def keeps_def)
    have "distinct (map uid (users (step ev rq st))) \<and> evolves same (users st) (users (step ev rq st))"
      using same_refl same_trans ku step_upd_same[OF nl] d by (rule upd_evolves)
    then have e: "evolves same (users st) (users (step ev rq st))" by (rule conjunct2)
    show ?thesis
    proof (rule nth_equalityI)
      show "length (map loginAttempts (take (length (users st)) (users (step ev rq st))))
              = length (map loginAttempts (users st))"
        using e by (simp add: evolves_def)
    next
      fix i assume "i < length (map loginAttempts (take (length (users st)) (users (step ev rq st))))"
      then have i: "i < length (users st)" by simp
      then have "same (users st ! i) (users (step ev rq st) ! i)" using e by (simp add: evolves_def)
      then show "map loginAttempts (take (length (users st)) (users (step ev rq st))) ! i
                   = map loginAttempts (users st) ! i"
        using i e by (simp add: same_def evolves_def)
    qed
  qed
  have reset: "status (fst (loginUser ev em pw st)) = 200
        \<and> findOne (\<lambda>x. email x = castEmail em) (users (snd (loginUser ev em pw st)))
            = Some (u\<lparr>loginAttempts := 0, lastLogin := Some (now ev)\<rparr>)"
    if s: "findOne (\<lambda>x. email x = castEmail em) (users st) = Some u
              \<and> \<not> accountLocked u \<and> isVerified u
              \<and> password u = Some h \<and> bcrypt_compare pw h" for ev :: env and em pw u h
  proof -
    define u' where "u' = u\<lparr>loginAttempts := 0, lastLogin := Some (now ev)\<rparr>"
    have f: "List.find (\<lambda>x. email x = castEmail em) (users st) = Some u"
      using s by (simp add: findOne_def)
    have e: "email u = castEmail em" using find_mem[OF f] by simp
    have 1: "loginUser ev em pw st
               = (Response 200 None
                    (Session (uid u') (email u') (name u') (Some (profilePicture u')) (isVerified u')),
                  st\<lparr>users := save u' (users st)\<rparr>)"
      using s by (simp add: loginUser_def Let_def u'_def)
    have 2: "List.find (\<lambda>x. email x = castEmail em) (save u' (users st)) = Some u'"
      by (rule find_save_same[OF f]) (use e in \<open>simp_all add: u'_def\<close>)
    show ?thesis using 1 2 by (simp add: findOne_def u'_def)
  qed
  show ?thesis using bound others reset by blast
qed

theorem loginAttempts_stays_within_0_and_5_witness:
  "distinct (map uid (users db))
   \<and> map loginAttempts (users db) = [0, 0, 5, 3] \<and> map accountLocked (users db) = [False, False, True, False]
   \<and> map loginAttempts
        (users (run [(env0, PostLogin ''dave@example.com'' ''guess''),
                     (env0, PostLogin ''dave@example.com'' ''guess''),
                     (env0, PostLogin ''dave@example.com'' ''guess''),
                     (env0, PostLogin ''dave@example.com'' ''p4ss''),
                     (env0, PostLogin ''alice@example.com'' ''correct horse'')] db)) = [0, 0, 5, 5]
   \<and> list_all (\<lambda>u. 0 \<le> loginAttempts u \<and> loginAttempts u \<le> 5)
        (users (run [(env0, PostLogin ''dave@example.com'' ''guess''),
                     (env0, PostLogin ''dave@example.com'' ''guess''),
                     (env0, PostLogin ''dave@example.com'' ''guess''),
                     (env0, PostLogin ''dave@example.com'' ''p4ss''),
                     (env0, PostLogin ''alice@example.com'' ''correct horse'')] db))
   \<and> map loginAttempts (take (length (users db)) (users (step env0 (PostResetPassword ''bb22'' ''n3w'') db)))
       = map loginAttempts (users db)
   \<and> findOne (\<lambda>x. email x = castEmail ''dave@example.com'') (users db) = Some dave
   \<and> \<not> accountLocked dave \<and> isVerified dave \<and> loginAttempts dave = 3
   \<and> bcrypt_compare ''p4ss'' (bcrypt_hash ''p4ss'' ''salt4'')
   \<and> status (fst (loginUser env0 ''dave@example.com'' ''p4ss'' db)) = 200
   \<and> map_option loginAttempts
         (findOne (\<lambda>x. email x = castEmail ''dave@example.com'')
            (users (snd (loginUser env0 ''dave@example.com'' ''p4ss'' db)))) = Some 0"
proof -
  have d: "distinct (map uid (users db))" by code_simp
  have m: "map loginAttempts (users db) = [0, 0, 5, 3] \<and> map accountLocked (users db) = [False, False, True, False]"
    by code_simp
  have a: "\<forall>u \<in> set (users db). 0 \<le> loginAttempts u \<and> loginAttempts u \<le> 5
                \<and> (loginAttempts u = 5 \<longrightarrow> accountLocked u)" by code_simp
  have r: "map loginAttempts
        (users (run [(env0, PostLogin ''dave@example.com'' ''guess''),
                     (env0, PostLogin ''dave@example.com'' ''guess''),
                     (env0, PostLogin ''dave@example.com'' ''guess''),
                     (env0, PostLogin ''dave@example.com'' ''p4ss''),
                     (env0, PostLogin ''alice@example.com'' ''correct horse'')] db)) = [0, 0, 5, 5]"
    by code_simp
  note th = loginAttempts_stays_within_0_and_5[OF d a]
  have b: "list_all (\<lambda>u. 0 \<le> loginAttempts u \<and> loginAttempts u \<le> 5)
        (users (run [(env0, PostLogin ''dave@example.com'' ''guess''),
                     (env0, PostLogin ''dave@example.com'' ''guess''),
                     (env0, PostLogin ''dave@example.com'' ''guess''),
                     (env0, PostLogin ''dave@example.com'' ''p4ss''),
                     (env0, PostLogin ''alice@example.com'' ''correct horse'')] db))"
    unfolding list_all_iff using th by blast
  have "\<forall>em pw. PostResetPassword ''bb22'' ''n3w'' \<noteq> PostLogin em pw" by simp
  then have s: "map loginAttempts (take (length (users db)) (users (step env0 (PostResetPassword ''bb22'' ''n3w'') db)))
       = map loginAttempts (users db)"
    using th by blast
  have f: "findOne (\<lambda>x. email x = castEmail ''dave@example.com'') (users db) = Some dave" by code_simp
  have v: "\<not> accountLocked dave \<and> isVerified dave \<and> loginAttempts dave = 3" by code_simp
  have p: "password dave = Some (bcrypt_hash ''p4ss'' ''salt4'')" by code_simp
  have c: "bcrypt_compare ''p4ss'' (bcrypt_hash ''p4ss'' ''salt4'')" by code_simp
  have ok: "status (fst (loginUser env0 ''dave@example.com'' ''p4ss'' db)) = 200
        \<and> findOne (\<lambda>x. email x = castEmail ''dave@example.com'')
             (users (snd (loginUser env0 ''dave@example.com'' ''p4ss'' db)))
            = Some (dave\<lparr>loginAttempts := 0, lastLogin := Some (now env0)\<rparr>)"
    using th f v p c by blast
  then have z: "map_option loginAttempts
         (findOne (\<lambda>x. email x = castEmail ''dave@example.com'')
            (users (snd (loginUser env0 ''dave@example.com'' ''p4ss'' db)))) = Some 0"
    by simp
  show ?thesis using d m r b s f v c ok z by blast
qed

section \<open>The bearer middleware and unverified accounts\<close>

text \<open>
  Claim C10. When the presented token is valid and names a stored user whose \<open>isVerified\<close>
  is false, \<open>protect\<close> answers 401 \<open>Email not verified\<close>: the schema has no \<open>role\<close>, so the
  exception for administrators never applies. Each route behind \<open>protect\<close>
  (\<open>GET /auth/me\<close>, \<open>PUT /auth/profile\<close> with whatever handler, and the four referral
  routes) then answers 401 and leaves the state as it was. Whenever \<open>protect\<close> lets a request
  through, the user it loaded is verified.
\<close>

theorem protect_refuses_unverified_users:
  assumes t: "extractToken h = Some token" and n: "token \<noteq> []"
    and j: "jwtVerify ev token = Some i"
    and f: "findById i (users st) = Some u"
    and v: "\<not> isVerified u"
  shows "protect ev h st = Inl (msg 401 ''Email not verified'')
       \<and> handle ev (GetMe h) st = Some (msg 401 ''Email not verified'', st)
       \<and> guarded ev h updateProfile st = Some (msg 401 ''Email not verified'', st)
       \<and> handle ev (GetReferral h) st = Some (msg 401 ''Email not verified'', st)
       \<and> handle ev (PostReferralApply h code) st = Some (msg 401 ''Email not verified'', st)
       \<and> handle ev (PostReferralShare h) st = Some (msg 401 ''Email not verified'', st)
       \<and> handle ev (GetReferralPoints h) st = Some (msg 401 ''Email not verified'', st)
       \<and> (\<forall>h' w. protect ev h' st = Inr w \<longrightarrow>
             (\<exists>x \<in> set (users st). uid x = uid w \<and> isVerified x))"
proof -
  have p: "protect ev h st = Inl (msg 401 ''Email not verified'')"
    using t n j f v by (simp add: protect_def role_def)
  have g: "\<And>k. guarded ev h k st = Some (msg 401 ''Email not verified'', st)"
    using p by (simp add: guarded_def)
  have s: "\<forall>h' w. protect ev h' st = Inr w \<longrightarrow> (\<exists>x \<in> set (users st). uid x = uid w \<and> isVerified x)"
  proof (intro allI impI)
    fix h' w assume "protect ev h' st = Inr w"
    then obtain k x where "findById k (users st) = Some x" and "isVerified x" and "w = x\<lparr>password := None\<rparr>"
      by (auto simp: protect_def role_def split: option.splits if_splits)
    then show "\<exists>x \<in> set (users st). uid x = uid w \<and> isVerified x"
      using findById_mem by fastforce
  qed
  show ?thesis using p g s by simp
qed

theorem protect_refuses_unverified_users_witness:
  "extractToken bearerBob = Some ''jwt-bob'' \<and> ''jwt-bob'' \<noteq> []
   \<and> jwtVerify env0 ''jwt-bob'' = Some (uid bob)
   \<and> findById (uid bob) (users db) = Some bob \<and> \<not> isVerified bob
   \<and> protect env0 bearerBob db = Inl (msg 401 ''Email not verified'')
   \<and> handle env0 (PostReferralApply bearerBob ''65F0A1C4'') db = Some (msg 401 ''Email not verified'', db)
   \<and> handle env0 (PostReferralShare bearerBob) db = Some (msg 401 ''Email not verified'', db)
   \<and> handle env0 (GetReferral bearerBob) db = Some (msg 401 ''Email not verified'', db)
   \<and> handle env0 (GetReferralPoints bearerBob) db = Some (msg 401 ''Email not verified'', db)
   \<and> handle env0 (GetMe bearerBob) db = Some (msg 401 ''Email not verified'', db)
   \<and> protect env0 \<lparr>authorization = None, cookieToken = Some ''jwt-alice''\<rparr> db = Inr (alice\<lparr>password := None\<rparr>)
   \<and> isVerified alice"
proof -
  have t: "extractToken bearerBob = Some ''jwt-bob''" by code_simp
  have n: "''jwt-bob'' \<noteq> []" by simp
  have j: "jwtVerify env0 ''jwt-bob'' = Some (uid bob)" by code_simp
  have f: "findById (uid bob) (users db) = Some bob" by code_simp
  have v: "\<not> isVerified bob" by code_simp
  have pa: "protect env0 \<lparr>authorization = None, cookieToken = Some ''jwt-alice''\<rparr> db = Inr (alice\<lparr>password := None\<rparr>)"
    by code_simp
  have va: "isVerified alice" by code_simp
  note th = protect_refuses_unverified_users[OF t n j f v]
  show ?thesis using t n j f v pa va th[of "\<lambda>u s. None" "''65F0A1C4''"] by blast
qed

end
